theory Spec2Isabelle
  imports Main
begin

section \<open>The VCI directory auditor (\<^verbatim>\<open>vci-directory-auditor/src/index.ts\<close>)\<close>

text \<open>
  A shallow embedding of the audit script: the deduplication utility \<^verbatim>\<open>getDuplicates\<close>,
  the auditor \<^verbatim>\<open>audit\<close> and the directory fetcher \<^verbatim>\<open>fetchDirectory\<close>.

  JavaScript strings are modelled as \<^typ>\<open>string\<close>; only equality, emptiness,
  concatenation and the ASCII pattern \<^verbatim>\<open>/audit-\d/\<close> are used on them. Counters are
  \<^typ>\<open>nat\<close>: the script only counts list entries.
\<close>

subsection \<open>Interfaces\<close>

record TrustedIssuer =
  iss :: string
  name :: string

text \<open>
  \<^verbatim>\<open>JWK.Key\<close> of node-jose: the auditor reads nothing but \<^verbatim>\<open>kid\<close>; the rest of the
  key is kept as opaque material.
\<close>

record Key =
  kid :: string
  material :: string

text \<open>
  \<^verbatim>\<open>IssuerLogInfo\<close>. The types of \<^verbatim>\<open>issuer\<close> and \<^verbatim>\<open>keys\<close> are parameters: the auditor
  is written against the declared types \<^verbatim>\<open>TrustedIssuer\<close> and \<^verbatim>\<open>JWK.Key[]\<close>, whereas the
  fetcher stores the element of the parsed directory and whatever the parsed response holds
  under \<^verbatim>\<open>keys\<close> (the casts \<^verbatim>\<open>as TrustedIssuers\<close> and \<^verbatim>\<open>as KeySet\<close> check nothing at run
  time). The optional \<^verbatim>\<open>errors?\<close> is an option.
\<close>

record ('i, 'k) IssuerLogInfo =
  issuer :: 'i
  keys :: 'k
  errors :: "string list option"

record IssuerKids =
  iss :: string
  kids :: "string list"

record ('i, 'k) DirectoryLog =
  directory :: string
  time :: string
  issuerInfo :: "('i, 'k) IssuerLogInfo list"

record AuditLog =
  directory :: string
  time :: string
  issuerCount :: nat
  newIssuerCount :: "nat option"
  deletedIssuerCount :: "nat option"
  issuersWithErrors :: "(TrustedIssuer, Key list) IssuerLogInfo list"
  duplicatedKids :: "string list"
  duplicatedIss :: "string list"
  duplicatedNames :: "string list"
  removedKids :: "IssuerKids list option"

subsection \<open>JavaScript \<^verbatim>\<open>Set\<close> and \<^verbatim>\<open>getDuplicates\<close>\<close>

text \<open>
  A JavaScript \<^verbatim>\<open>Set\<close> keeps its elements in insertion order and without repetition: it is
  a list without duplicates. \<^verbatim>\<open>new Set(array)\<close> adds the elements of the array one by one.
\<close>

definition Set_add :: "'a list \<Rightarrow> 'a \<Rightarrow> 'a list" where
  "Set_add s x = (if x \<in> set s then s else s @ [x])"

definition Set_new :: "'a list \<Rightarrow> 'a list" where
  "Set_new array = foldl Set_add [] array"

definition Set_has :: "'a list \<Rightarrow> 'a \<Rightarrow> bool" where
  "Set_has s x = (x \<in> set s)"

definition Set_delete :: "'a list \<Rightarrow> 'a \<Rightarrow> 'a list" where
  "Set_delete s x = removeAll x s"

definition Array_from :: "'a list \<Rightarrow> 'a list" where
  "Array_from s = s"

text \<open>
  A string is truthy when it is not empty. The callback of \<^verbatim>\<open>array.filter\<close> in
  \<^verbatim>\<open>getDuplicates\<close> returns nothing (\<^verbatim>\<open>undefined\<close>, falsy) in its first branch and
  \<^verbatim>\<open>item\<close> itself in the second, so there the element is kept when \<^verbatim>\<open>item\<close> is truthy.
\<close>

definition truthy_string :: "string \<Rightarrow> bool" where
  "truthy_string s = (s \<noteq> [])"

text \<open>
  The \<^verbatim>\<open>filter\<close> of \<^verbatim>\<open>getDuplicates\<close>, with the set that its callback mutates
  threaded through the scan:
  \<^verbatim>\<open>
  array.filter(item => {
      if (set.has(item)) { set.delete(item); } else { return item; }
  })
  \<close>
\<close>

fun filter_duplicates :: "string list \<Rightarrow> string list \<Rightarrow> string list" where
  "filter_duplicates s [] = []"
| "filter_duplicates s (item # rest) =
     (if Set_has s item then filter_duplicates (Set_delete s item) rest
      else if truthy_string item then item # filter_duplicates s rest
      else filter_duplicates s rest)"

definition getDuplicates :: "string list \<Rightarrow> string list" where
  "getDuplicates array =
     (let s = Set_new array;
          duplicates = filter_duplicates s array
      in Array_from (Set_new duplicates))"

subsection \<open>Issuer URL normalisation: \<^verbatim>\<open>iss.replace(/audit-\d/, 'audit')\<close>\<close>

text \<open>
  \<^verbatim>\<open>\d\<close> is an ASCII digit. The pattern matches at the head of a string when the string
  starts with \<^verbatim>\<open>audit-\<close> and a digit follows.
\<close>

definition is_digit :: "char \<Rightarrow> bool" where
  "is_digit c = (c \<in> set ''0123456789'')"

definition matches_audit_digit :: "string \<Rightarrow> bool" where
  "matches_audit_digit s =
     (take 6 s = ''audit-'' \<and> (case drop 6 s of [] \<Rightarrow> False | d # _ \<Rightarrow> is_digit d))"

text \<open>
  \<^verbatim>\<open>String.prototype.replace\<close> with a pattern that has no \<^verbatim>\<open>g\<close> flag: the string is
  scanned from the left, the first match (seven characters) is replaced by the replacement
  text and the rest of the string is copied as it is. A string without a match is returned
  unchanged.
\<close>

fun replace_audit_digit :: "string \<Rightarrow> string" where
  "replace_audit_digit [] = []"
| "replace_audit_digit (c # cs) =
     (if matches_audit_digit (c # cs) then ''audit'' @ drop 7 (c # cs)
      else c # replace_audit_digit cs)"

text \<open>\<^verbatim>\<open>/audit-\d/.test(s)\<close>: the pattern occurs somewhere in the string.\<close>

fun contains_audit_digit :: "string \<Rightarrow> bool" where
  "contains_audit_digit [] = False"
| "contains_audit_digit (c # cs) = (matches_audit_digit (c # cs) \<or> contains_audit_digit cs)"

subsection \<open>The auditor\<close>

definition getIssuerUrl :: "bool \<Rightarrow> string \<Rightarrow> string" where
  "getIssuerUrl isTest url = (if isTest then replace_audit_digit url else url)"

definition getIssuers :: "bool \<Rightarrow> (TrustedIssuer, Key list) DirectoryLog \<Rightarrow> string list" where
  "getIssuers isTest dir =
     map (\<lambda>info. getIssuerUrl isTest (TrustedIssuer.iss (issuer info))) (issuerInfo dir)"

definition getIssuerKids ::
  "bool \<Rightarrow> (TrustedIssuer, Key list) DirectoryLog \<Rightarrow> IssuerKids list" where
  "getIssuerKids isTest dir =
     map (\<lambda>info. \<lparr>IssuerKids.iss = getIssuerUrl isTest (TrustedIssuer.iss (issuer info)),
                  kids = map kid (keys info)\<rparr>)
         (issuerInfo dir)"

text \<open>
  The two \<^verbatim>\<open>reduce\<close> calls: count the entries of the first list that the second list
  does not include.
\<close>

definition count_not_included :: "string list \<Rightarrow> string list \<Rightarrow> nat" where
  "count_not_included xs others =
     foldl (\<lambda>acc current. acc + (if current \<in> set others then 0 else 1)) 0 xs"

text \<open>
  The innermost loop, \<^verbatim>\<open>pik.kids.forEach\<close>, pushes onto the local array
  \<^verbatim>\<open>removedKids\<close> every kid of the previous entry that the current entry does not include.
\<close>

definition collect_removed :: "IssuerKids \<Rightarrow> IssuerKids \<Rightarrow> string list" where
  "collect_removed pik cik =
     foldl (\<lambda>removedKids kid. if kid \<notin> set (kids cik) then removedKids @ [kid] else removedKids)
           [] (kids pik)"

text \<open>
  The body of \<^verbatim>\<open>currentIssKids.forEach\<close> for one pair; \<open>acc\<close> is
  \<^verbatim>\<open>auditLog.removedKids\<close>, which the body may extend by one entry.
\<close>

definition compare_pair :: "IssuerKids \<Rightarrow> IssuerKids list \<Rightarrow> IssuerKids \<Rightarrow> IssuerKids list" where
  "compare_pair pik acc cik =
     (if IssuerKids.iss pik = IssuerKids.iss cik then
        (let removedKids = collect_removed pik cik
         in if length removedKids > 0
            then acc @ [\<lparr>IssuerKids.iss = IssuerKids.iss pik, kids = removedKids\<rparr>]
            else acc)
      else acc)"

definition compare_all :: "IssuerKids list \<Rightarrow> IssuerKids list \<Rightarrow> IssuerKids list" where
  "compare_all previousIssKids currentIssKids =
     foldl (\<lambda>acc pik. foldl (compare_pair pik) acc currentIssKids) [] previousIssKids"

definition has_errors :: "('i, 'k) IssuerLogInfo \<Rightarrow> bool" where
  "has_errors info = (case errors info of None \<Rightarrow> False | Some es \<Rightarrow> length es > 0)"

definition audit ::
  "bool \<Rightarrow> (TrustedIssuer, Key list) DirectoryLog \<Rightarrow> (TrustedIssuer, Key list) DirectoryLog option
     \<Rightarrow> AuditLog" where
  "audit isTest currentLog previousLog =
     (let currentIss = getIssuers isTest currentLog;
          auditLog =
            \<lparr>AuditLog.directory = DirectoryLog.directory currentLog,
             time = DirectoryLog.time currentLog,
             issuerCount = length (issuerInfo currentLog),
             newIssuerCount = None,
             deletedIssuerCount = None,
             issuersWithErrors = filter has_errors (issuerInfo currentLog),
             duplicatedKids =
               getDuplicates (concat (map (\<lambda>info. map kid (keys info)) (issuerInfo currentLog))),
             duplicatedIss = getDuplicates currentIss,
             duplicatedNames =
               getDuplicates (map (\<lambda>info. name (issuer info)) (issuerInfo currentLog)),
             removedKids = None\<rparr>
      in case previousLog of
           None \<Rightarrow> auditLog
         | Some previousLog \<Rightarrow>
             (let previousIss = getIssuers isTest previousLog;
                  currentIssKids = getIssuerKids isTest currentLog;
                  previousIssKids = getIssuerKids isTest previousLog
              in auditLog
                   \<lparr>newIssuerCount := Some (count_not_included currentIss previousIss),
                    deletedIssuerCount := Some (count_not_included previousIss currentIss),
                    removedKids := Some (compare_all previousIssKids currentIssKids)\<rparr>))"

subsection \<open>The directory fetcher\<close>

text \<open>
  Values produced by \<^verbatim>\<open>JSON.parse\<close>, together with \<^verbatim>\<open>undefined\<close> (what reading a
  missing property gives) and built-in functions (what reading \<^verbatim>\<open>keys\<close> on an array
  gives). An object is the list of its own properties. An integer stands for a number: the
  script tests numbers for being zero and converts them to strings, and an integer below
  \<open>10\<^sup>2\<^sup>1\<close> in magnitude prints in decimal notation.
\<close>

datatype jsval =
    JUndefined
  | JNull
  | JBool bool
  | JNum int
  | JStr string
  | JArr "jsval list"
  | JObj "(string \<times> jsval) list"
  | JFunction string

fun truthy :: "jsval \<Rightarrow> bool" where
  "truthy JUndefined = False"
| "truthy JNull = False"
| "truthy (JBool b) = b"
| "truthy (JNum n) = (n \<noteq> 0)"
| "truthy (JStr s) = (s \<noteq> [])"
| "truthy (JArr xs) = True"
| "truthy (JObj kvs) = True"
| "truthy (JFunction f) = True"

text \<open>
  The property read \<^verbatim>\<open>keySet.keys\<close>: it throws a \<^verbatim>\<open>TypeError\<close> on \<^verbatim>\<open>null\<close> and
  \<^verbatim>\<open>undefined\<close>, finds the method \<^verbatim>\<open>Array.prototype.keys\<close> on an array, the own
  property on an object, and nothing (\<^verbatim>\<open>undefined\<close>) elsewhere.
\<close>

fun get_keys :: "jsval \<Rightarrow> string + jsval" where
  "get_keys JUndefined = Inl ''TypeError: Cannot read properties of undefined (reading 'keys')''"
| "get_keys JNull = Inl ''TypeError: Cannot read properties of null (reading 'keys')''"
| "get_keys (JObj kvs) = Inr (case map_of kvs ''keys'' of None \<Rightarrow> JUndefined | Some v \<Rightarrow> v)"
| "get_keys (JArr xs) = Inr (JFunction ''keys'')"
| "get_keys v = Inr JUndefined"

text \<open>
  The property read \<^verbatim>\<open>issuer.iss\<close> of line 107: a \<^verbatim>\<open>TypeError\<close> on \<^verbatim>\<open>null\<close> and
  \<^verbatim>\<open>undefined\<close>, the own property on an object, \<^verbatim>\<open>undefined\<close> elsewhere.
\<close>

fun get_iss :: "jsval \<Rightarrow> string + jsval" where
  "get_iss JUndefined = Inl ''TypeError: Cannot read properties of undefined (reading 'iss')''"
| "get_iss JNull = Inl ''TypeError: Cannot read properties of null (reading 'iss')''"
| "get_iss (JObj kvs) = Inr (case map_of kvs ''iss'' of None \<Rightarrow> JUndefined | Some v \<Rightarrow> v)"
| "get_iss v = Inr JUndefined"

text \<open>
  The conversion to a string that \<^verbatim>\<open>+\<close> applies to its left operand when the right one is
  a string. A number prints in decimal notation. An array prints its elements separated by
  commas, \<^verbatim>\<open>null\<close> and \<^verbatim>\<open>undefined\<close> elements as nothing. An object prints as
  \<^verbatim>\<open>[object Object]\<close>, unless it has an own property \<^verbatim>\<open>toString\<close>: a parsed value is
  never callable, so the conversion then finds no method that yields a primitive and
  throws a \<^verbatim>\<open>TypeError\<close>.
\<close>

definition digit_char :: "nat \<Rightarrow> char" where
  "digit_char n = ''0123456789'' ! (n mod 10)"

function decimal :: "nat \<Rightarrow> string" where
  "decimal n = (if n < 10 then [digit_char n] else decimal (n div 10) @ [digit_char n])"
  by pat_completeness auto
termination
  by (relation "measure (\<lambda>n. n)") auto

declare decimal.simps [simp del]

definition Number_toString :: "int \<Rightarrow> string" where
  "Number_toString n = (if n < 0 then ''-'' @ decimal (nat (- n)) else decimal (nat n))"

fun ToString :: "jsval \<Rightarrow> string + string"
  and join_elements :: "jsval list \<Rightarrow> string + string" where
  "ToString JUndefined = Inr ''undefined''"
| "ToString JNull = Inr ''null''"
| "ToString (JBool b) = Inr (if b then ''true'' else ''false'')"
| "ToString (JNum n) = Inr (Number_toString n)"
| "ToString (JStr s) = Inr s"
| "ToString (JArr xs) = join_elements xs"
| "ToString (JObj kvs) =
     (case map_of kvs ''toString'' of
        None \<Rightarrow> Inr ''[object Object]''
      | Some v \<Rightarrow> Inl ''TypeError: Cannot convert object to primitive value'')"
| "ToString (JFunction f) = Inr (''function '' @ f @ ''() { [native code] }'')"
| "join_elements [] = Inr []"
| "join_elements (x # xs) =
     (case (if x = JUndefined \<or> x = JNull then Inr [] else ToString x) of
        Inl err \<Rightarrow> Inl err
      | Inr s \<Rightarrow>
          (if xs = [] then Inr s
           else (case join_elements xs of
                   Inl err \<Rightarrow> Inl err
                 | Inr rest \<Rightarrow> Inr (s @ '','' @ rest))))"

text \<open>
  Line 107, \<^verbatim>\<open>issuer.iss + '/.well-known/jwks.json'\<close>; \<open>Inl\<close> is what it throws. It stands
  before the \<^verbatim>\<open>try\<close> block, so what it throws rejects the promise of the callback.
\<close>

definition jwkURL :: "jsval \<Rightarrow> string + string" where
  "jwkURL trustedIssuer =
     (case get_iss trustedIssuer of
        Inl err \<Rightarrow> Inl err
      | Inr i \<Rightarrow>
          (case ToString i of
             Inl err \<Rightarrow> Inl err
           | Inr s \<Rightarrow> Inr (s @ ''/.well-known/jwks.json'')))"

text \<open>
  The network. \<^verbatim>\<open>got(url, { timeout: 5000 })\<close> returns a promise that either rejects with
  an error (connection failure, timeout, non-success status), given here by its
  \<^verbatim>\<open>toString()\<close>, or resolves with a response; \<open>None\<close> stands for a falsy response, the
  case the script tests with \<^verbatim>\<open>!response\<close>. The world is a parameter
  \<open>got :: nat \<Rightarrow> string \<Rightarrow> got_result\<close>: \<open>got 0 url\<close> is the outcome of the request for the
  directory and \<open>got (i + 1) url\<close> the outcome of the request that the callback of the
  element at index \<open>i\<close> makes, so that two requests for one URL may end differently.
  \<^verbatim>\<open>JSON.parse\<close> is a parameter too: it throws (\<open>Inl\<close>, the error's \<^verbatim>\<open>toString()\<close>) or
  returns a value.
\<close>

record Response =
  body :: string

datatype got_result = Rejects string | Resolves "Response option"

text \<open>
  The \<^verbatim>\<open>try\<close> block of the per-issuer callback; \<open>Inl\<close> is what it throws, \<open>Inr\<close> the
  value assigned to \<^verbatim>\<open>issuerLogInfo.keys\<close>.
\<close>

definition try_keys :: "got_result \<Rightarrow> (string \<Rightarrow> string + jsval) \<Rightarrow> string + jsval" where
  "try_keys result JSON_parse =
     (case result of
        Rejects err \<Rightarrow> Inl err
      | Resolves None \<Rightarrow> Inl ''Can't reach JWK URL''
      | Resolves (Some response) \<Rightarrow>
          (case JSON_parse (body response) of
             Inl err \<Rightarrow> Inl err
           | Inr keySet \<Rightarrow>
               if \<not> truthy keySet then Inl ''Failed to parse JSON KeySet schema''
               else get_keys keySet))"

text \<open>
  Lines 108 to 126 of the callback: the entry with empty \<^verbatim>\<open>keys\<close> and \<^verbatim>\<open>errors\<close>, then
  the \<^verbatim>\<open>try\<close> block. The \<^verbatim>\<open>catch\<close> takes everything the block throws and pushes the
  error's text onto \<^verbatim>\<open>errors\<close> (\<^verbatim>\<open>errors?.push\<close>: nothing is pushed when \<^verbatim>\<open>errors\<close> is
  undefined).
\<close>

definition try_catch ::
  "got_result \<Rightarrow> (string \<Rightarrow> string + jsval) \<Rightarrow> jsval \<Rightarrow> (jsval, jsval) IssuerLogInfo" where
  "try_catch result JSON_parse trustedIssuer =
     (let issuerLogInfo = \<lparr>issuer = trustedIssuer, keys = JArr [], errors = Some []\<rparr>
      in case try_keys result JSON_parse of
           Inr ks \<Rightarrow> issuerLogInfo\<lparr>keys := ks\<rparr>
         | Inl err \<Rightarrow>
             issuerLogInfo\<lparr>errors := map_option (\<lambda>es. es @ [err]) (errors issuerLogInfo)\<rparr>)"

text \<open>
  The per-issuer callback, lines 106 to 127, by the outcome of the promise it returns:
  rejected (\<open>Inl\<close>) when line 107 throws, fulfilled with the entry otherwise.
\<close>

definition fetchIssuerLogInfo ::
  "(string \<Rightarrow> got_result) \<Rightarrow> (string \<Rightarrow> string + jsval) \<Rightarrow> jsval
     \<Rightarrow> string + (jsval, jsval) IssuerLogInfo" where
  "fetchIssuerLogInfo got_i JSON_parse trustedIssuer =
     (case jwkURL trustedIssuer of
        Inl err \<Rightarrow> Inl err
      | Inr url \<Rightarrow> Inr (try_catch (got_i url) JSON_parse trustedIssuer))"

text \<open>
  \<^verbatim>\<open>Promise.all\<close>. The promises settle in some order \<open>order\<close> (a list of indices, a
  parameter). A promise that fulfils writes its value into the slot of its own index; the
  first promise that rejects rejects the whole with its reason; the array of values is
  delivered once every slot is filled. \<open>None\<close>: some promise never settles and
  \<^verbatim>\<open>await\<close> never resumes.
\<close>

fun await_all :: "(string + 'a) list \<Rightarrow> 'a option list \<Rightarrow> nat list \<Rightarrow> (string + 'a list) option" where
  "await_all outcomes slots [] =
     (case those slots of None \<Rightarrow> None | Some vs \<Rightarrow> Some (Inr vs))"
| "await_all outcomes slots (i # order) =
     (if i < length outcomes then
        (case outcomes ! i of
           Inl reason \<Rightarrow> Some (Inl reason)
         | Inr v \<Rightarrow> await_all outcomes (slots[i := Some v]) order)
      else await_all outcomes slots order)"

definition Promise_all :: "nat list \<Rightarrow> (string + 'a) list \<Rightarrow> (string + 'a list) option" where
  "Promise_all order outcomes = await_all outcomes (replicate (length outcomes) None) order"

text \<open>
  The directory document. \<^verbatim>\<open>issuers.participating_issuers\<close> throws a \<^verbatim>\<open>TypeError\<close> on
  \<^verbatim>\<open>null\<close>, and \<^verbatim>\<open>.map\<close> can be called on an array only.
\<close>

fun get_participating_issuers :: "jsval \<Rightarrow> string + jsval" where
  "get_participating_issuers JUndefined =
     Inl ''TypeError: Cannot read properties of undefined (reading 'participating_issuers')''"
| "get_participating_issuers JNull =
     Inl ''TypeError: Cannot read properties of null (reading 'participating_issuers')''"
| "get_participating_issuers (JObj kvs) =
     Inr (case map_of kvs ''participating_issuers'' of None \<Rightarrow> JUndefined | Some v \<Rightarrow> v)"
| "get_participating_issuers v = Inr JUndefined"

fun map_receiver :: "jsval \<Rightarrow> string + jsval list" where
  "map_receiver (JArr xs) = Inr xs"
| "map_receiver JUndefined = Inl ''TypeError: Cannot read properties of undefined (reading 'map')''"
| "map_receiver JNull = Inl ''TypeError: Cannot read properties of null (reading 'map')''"
| "map_receiver v = Inl ''TypeError: issuers.participating_issuers.map is not a function''"

text \<open>
  An element at its declared type \<^verbatim>\<open>TrustedIssuer\<close>: an object with strings \<^verbatim>\<open>iss\<close> and
  \<^verbatim>\<open>name\<close>. Nothing in the script checks it.
\<close>

fun as_TrustedIssuer :: "jsval \<Rightarrow> TrustedIssuer option" where
  "as_TrustedIssuer (JObj kvs) =
     (case (map_of kvs ''iss'', map_of kvs ''name'') of
        (Some (JStr i), Some (JStr n)) \<Rightarrow> Some \<lparr>TrustedIssuer.iss = i, name = n\<rparr>
      | _ \<Rightarrow> None)"
| "as_TrustedIssuer v = None"

text \<open>The outcome of a promise that the script awaits.\<close>

datatype 'a promise = Fulfilled 'a | Rejected string | Pending

text \<open>
  The first part of \<^verbatim>\<open>fetchDirectory\<close>, lines 96 to 104, up to the array that \<^verbatim>\<open>map\<close>
  runs over. The two \<^verbatim>\<open>Promise.reject(...)\<close> statements after \<^verbatim>\<open>!response\<close> and
  \<^verbatim>\<open>!issuers\<close> build a rejected promise and drop it: control goes on, and the next
  property read throws.
\<close>

definition read_directory ::
  "(nat \<Rightarrow> string \<Rightarrow> got_result) \<Rightarrow> (string \<Rightarrow> string + jsval) \<Rightarrow> string
     \<Rightarrow> jsval list promise" where
  "read_directory got JSON_parse directoryUrl =
     (case got 0 directoryUrl of
        Rejects err \<Rightarrow> Rejected err
      | Resolves None \<Rightarrow> Rejected ''TypeError: Cannot read properties of undefined (reading 'body')''
      | Resolves (Some response) \<Rightarrow>
          (case JSON_parse (body response) of
             Inl err \<Rightarrow> Rejected err
           | Inr issuers \<Rightarrow>
               (case get_participating_issuers issuers of
                  Inl err \<Rightarrow> Rejected err
                | Inr receiver \<Rightarrow>
                    (case map_receiver receiver of
                       Inl err \<Rightarrow> Rejected err
                     | Inr elements \<Rightarrow> Fulfilled elements))))"

text \<open>
  \<^verbatim>\<open>fetchDirectory\<close>. \<^verbatim>\<open>map\<close> runs the callback on every element of the array. When
  \<^verbatim>\<open>Promise.all\<close> fulfils, its values become \<^verbatim>\<open>issuerInfo\<close>. When it rejects, the
  \<^verbatim>\<open>catch\<close> of lines 136 to 138 builds a rejected promise and drops it, and line 140
  returns the snapshot with the \<^verbatim>\<open>issuerInfo: []\<close> it was created with. \<open>now\<close> is the
  formatted \<^verbatim>\<open>currentTime\<close>.
\<close>

definition fetchDirectory ::
  "(nat \<Rightarrow> string \<Rightarrow> got_result) \<Rightarrow> (string \<Rightarrow> string + jsval) \<Rightarrow> nat list \<Rightarrow> string \<Rightarrow> string
     \<Rightarrow> (jsval, jsval) DirectoryLog promise" where
  "fetchDirectory got JSON_parse order directoryUrl now =
     (case read_directory got JSON_parse directoryUrl of
        Rejected err \<Rightarrow> Rejected err
      | Pending \<Rightarrow> Pending
      | Fulfilled elements \<Rightarrow>
          (let issuerLogInfo =
                 map (\<lambda>(i, trustedIssuer). fetchIssuerLogInfo (got (Suc i)) JSON_parse trustedIssuer)
                     (enumerate 0 elements);
               directoryLog = \<lparr>DirectoryLog.directory = directoryUrl, time = now, issuerInfo = []\<rparr>
           in case Promise_all order issuerLogInfo of
                None \<Rightarrow> Pending
              | Some (Inr infos) \<Rightarrow> Fulfilled (directoryLog\<lparr>issuerInfo := infos\<rparr>)
              | Some (Inl err) \<Rightarrow> Fulfilled directoryLog))"

subsection \<open>Reference definitions for the comparison of key identifiers\<close>

text \<open>
  What the specification says one pair of a previous and a current entry contributes to
  \<^verbatim>\<open>removedKids\<close>: when the identifiers are equal and the difference of the previous kids
  and the current kids is not empty, one entry with that difference; otherwise nothing.
\<close>

definition kids_difference :: "IssuerKids \<Rightarrow> IssuerKids \<Rightarrow> string list" where
  "kids_difference pik cik = filter (\<lambda>k. k \<notin> set (kids cik)) (kids pik)"

definition removed_entry :: "IssuerKids \<Rightarrow> IssuerKids \<Rightarrow> IssuerKids list" where
  "removed_entry pik cik =
     (if IssuerKids.iss pik = IssuerKids.iss cik \<and> kids_difference pik cik \<noteq> []
      then [\<lparr>IssuerKids.iss = IssuerKids.iss pik, kids = kids_difference pik cik\<rparr>]
      else [])"

text \<open>
  The pairs of a previous and a current entry with equal identifiers, previous entries
  first; the entry that a pair stands for in \<^verbatim>\<open>removedKids\<close>; and whether the pair has
  lost a kid.
\<close>

definition matching_pairs :: "IssuerKids list \<Rightarrow> IssuerKids list \<Rightarrow> (IssuerKids \<times> IssuerKids) list" where
  "matching_pairs prevs curs =
     filter (\<lambda>(pik, cik). IssuerKids.iss pik = IssuerKids.iss cik) (List.product prevs curs)"

definition entry_of_pair :: "IssuerKids \<times> IssuerKids \<Rightarrow> IssuerKids" where
  "entry_of_pair pc = \<lparr>IssuerKids.iss = IssuerKids.iss (fst pc), kids = kids_difference (fst pc) (snd pc)\<rparr>"

definition lost_kids :: "IssuerKids \<times> IssuerKids \<Rightarrow> bool" where
  "lost_kids pc = (kids_difference (fst pc) (snd pc) \<noteq> [])"

text \<open>The number of positions of a string at which \<^verbatim>\<open>/audit-\d/\<close> matches.\<close>

fun count_audit_digit :: "string \<Rightarrow> nat" where
  "count_audit_digit [] = 0"
| "count_audit_digit (c # cs) = (if matches_audit_digit (c # cs) then 1 else 0) + count_audit_digit cs"

subsection \<open>Facts about \<^verbatim>\<open>Set\<close> and \<^verbatim>\<open>getDuplicates\<close>\<close>

lemma set_foldl_Set_add: "set (foldl Set_add s xs) = set s \<union> set xs"
  by (induction xs arbitrary: s) (auto simp: Set_add_def)

lemma distinct_foldl_Set_add: "distinct s \<Longrightarrow> distinct (foldl Set_add s xs)"
  by (induction xs arbitrary: s) (auto simp: Set_add_def)

lemma set_Set_new: "set (Set_new xs) = set xs"
  by (simp add: Set_new_def set_foldl_Set_add)

lemma distinct_Set_new: "distinct (Set_new xs)"
  by (simp add: Set_new_def distinct_foldl_Set_add)

lemma Set_new_Nil: "Set_new [] = []"
  by (simp add: Set_new_def)

text \<open>
  What the filter keeps: the non-empty values that occur in the rest of the array and are
  either no longer in the set, or occur at least twice.
\<close>

lemma set_filter_duplicates:
  "set (filter_duplicates s xs) =
     {v. v \<noteq> [] \<and> (if v \<in> set s then 2 \<le> count_list xs v else 1 \<le> count_list xs v)}"
proof (induction xs arbitrary: s)
  case Nil
  show ?case by simp
next
  case (Cons item rest)
  show ?case
  proof (cases "item \<in> set s")
    case True
    then show ?thesis
      by (auto simp: Cons.IH Set_has_def Set_delete_def)
  next
    case False
    then show ?thesis
      by (auto simp: Cons.IH Set_has_def truthy_string_def)
  qed
qed

lemma set_getDuplicates:
  "set (getDuplicates array) = {v. v \<noteq> [] \<and> 2 \<le> count_list array v}"
proof -
  have "v \<in> set array" if "2 \<le> count_list array v" for v
  proof (rule ccontr)
    assume "v \<notin> set array"
    then have "count_list array v = 0" by (simp add: count_list_0_iff)
    with that show False by simp
  qed
  then show ?thesis
    by (auto simp: getDuplicates_def Array_from_def set_Set_new set_filter_duplicates)
qed

lemma distinct_getDuplicates: "distinct (getDuplicates array)"
  by (simp add: getDuplicates_def Array_from_def distinct_Set_new)

lemma getDuplicates_Nil: "getDuplicates [] = []"
  by (simp add: getDuplicates_def Array_from_def Set_new_Nil)

text \<open>
  C1. The specification asks that \<^verbatim>\<open>getDuplicates\<close> return exactly the values that occur
  at least twice. The empty string occurs twice in \<^verbatim>\<open>["", ""]\<close>, and the result is empty:
  the callback of \<^verbatim>\<open>filter\<close> returns \<^verbatim>\<open>item\<close>, so an empty (falsy) string is never kept.
  For non-empty values the result is as specified (\<open>set_getDuplicates\<close>,
  \<open>distinct_getDuplicates\<close>, \<open>getDuplicates_Nil\<close>).
\<close>

theorem getDuplicates_misses_empty_string:
  "getDuplicates ['''', ''''] = [] \<and> count_list ['''', ''''] '''' = 2"
  by (simp add: getDuplicates_def Array_from_def Set_new_def Set_add_def Set_has_def
      Set_delete_def truthy_string_def)

subsection \<open>Facts about the auditor's loops\<close>

lemma count_not_included_eq:
  "count_not_included xs others = length (filter (\<lambda>c. c \<notin> set others) xs)"
proof -
  have "foldl (\<lambda>acc current. acc + (if current \<in> set others then 0 else 1)) a xs
          = a + length (filter (\<lambda>c. c \<notin> set others) xs)" for a :: nat
    by (induction xs arbitrary: a) auto
  then show ?thesis by (simp add: count_not_included_def)
qed

lemma collect_removed_eq: "collect_removed pik cik = kids_difference pik cik"
proof -
  have "foldl (\<lambda>removedKids k. if k \<notin> set ys then removedKids @ [k] else removedKids) a xs
          = a @ filter (\<lambda>k. k \<notin> set ys) xs" for a :: "string list" and xs ys
    by (induction xs arbitrary: a) auto
  then show ?thesis by (simp add: collect_removed_def kids_difference_def)
qed

lemma compare_pair_eq: "compare_pair pik acc cik = acc @ removed_entry pik cik"
  by (simp add: compare_pair_def removed_entry_def collect_removed_eq Let_def)

lemma foldl_compare_pair:
  "foldl (compare_pair pik) acc curs = acc @ concat (map (removed_entry pik) curs)"
  by (induction curs arbitrary: acc) (simp_all add: compare_pair_eq)

lemma compare_all_eq:
  "compare_all prevs curs = concat (map (\<lambda>pik. concat (map (removed_entry pik) curs)) prevs)"
proof -
  have "foldl (\<lambda>acc pik. foldl (compare_pair pik) acc curs) a prevs
          = a @ concat (map (\<lambda>pik. concat (map (removed_entry pik) curs)) prevs)" for a
    by (induction prevs arbitrary: a) (simp_all add: foldl_compare_pair)
  then show ?thesis by (simp add: compare_all_def)
qed

lemma audit_newIssuerCount:
  "newIssuerCount (audit isTest currentLog (Some previousLog)) =
     Some (count_not_included (getIssuers isTest currentLog) (getIssuers isTest previousLog))"
  by (simp add: audit_def Let_def)

lemma audit_deletedIssuerCount:
  "deletedIssuerCount (audit isTest currentLog (Some previousLog)) =
     Some (count_not_included (getIssuers isTest previousLog) (getIssuers isTest currentLog))"
  by (simp add: audit_def Let_def)

lemma audit_removedKids:
  "removedKids (audit isTest currentLog (Some previousLog)) =
     Some (compare_all (getIssuerKids isTest previousLog) (getIssuerKids isTest currentLog))"
  by (simp add: audit_def Let_def)

text \<open>
  C7. With a previous snapshot, \<^verbatim>\<open>newIssuerCount\<close> is the number of entries of the current
  snapshot whose normalised identifier is not among those of the previous snapshot, and
  \<^verbatim>\<open>deletedIssuerCount\<close> the number of entries of the previous snapshot whose normalised
  identifier is not among those of the current one. For current issuers \<^verbatim>\<open>[A, B]\<close> and
  previous issuers \<^verbatim>\<open>[A, C]\<close>, whatever the other fields hold, both counts are 1.
\<close>

theorem audit_issuer_counts:
  "newIssuerCount (audit isTest currentLog (Some previousLog)) =
     Some (length (filter (\<lambda>i. i \<notin> set (getIssuers isTest previousLog))
                          (getIssuers isTest currentLog)))
   \<and> deletedIssuerCount (audit isTest currentLog (Some previousLog)) =
     Some (length (filter (\<lambda>i. i \<notin> set (getIssuers isTest currentLog))
                          (getIssuers isTest previousLog)))
   \<and> newIssuerCount
        (audit isTest
           \<lparr>DirectoryLog.directory = d1, time = t1,
            issuerInfo = [\<lparr>issuer = \<lparr>TrustedIssuer.iss = ''A'', name = n1\<rparr>, keys = ks1, errors = e1\<rparr>,
                          \<lparr>issuer = \<lparr>TrustedIssuer.iss = ''B'', name = n2\<rparr>, keys = ks2, errors = e2\<rparr>]\<rparr>
           (Some \<lparr>DirectoryLog.directory = d2, time = t2,
                  issuerInfo = [\<lparr>issuer = \<lparr>TrustedIssuer.iss = ''A'', name = n3\<rparr>, keys = ks3, errors = e3\<rparr>,
                                \<lparr>issuer = \<lparr>TrustedIssuer.iss = ''C'', name = n4\<rparr>, keys = ks4, errors = e4\<rparr>]\<rparr>))
       = Some 1
   \<and> deletedIssuerCount
        (audit isTest
           \<lparr>DirectoryLog.directory = d1, time = t1,
            issuerInfo = [\<lparr>issuer = \<lparr>TrustedIssuer.iss = ''A'', name = n1\<rparr>, keys = ks1, errors = e1\<rparr>,
                          \<lparr>issuer = \<lparr>TrustedIssuer.iss = ''B'', name = n2\<rparr>, keys = ks2, errors = e2\<rparr>]\<rparr>
           (Some \<lparr>DirectoryLog.directory = d2, time = t2,
                  issuerInfo = [\<lparr>issuer = \<lparr>TrustedIssuer.iss = ''A'', name = n3\<rparr>, keys = ks3, errors = e3\<rparr>,
                                \<lparr>issuer = \<lparr>TrustedIssuer.iss = ''C'', name = n4\<rparr>, keys = ks4, errors = e4\<rparr>]\<rparr>))
       = Some 1"
  by (simp add: audit_newIssuerCount audit_deletedIssuerCount count_not_included_eq
      getIssuers_def getIssuerUrl_def matches_audit_digit_def)

subsection \<open>Facts about the normalisation of issuer URLs\<close>

lemma matches_take7: "matches_audit_digit (take 7 s) = matches_audit_digit s"
proof -
  have "take 6 (take 7 s) = take 6 s" by (simp add: min_def)
  moreover have "drop 6 (take 7 s) = take 1 (drop 6 s)" by (simp add: drop_take)
  ultimately show ?thesis
    by (cases "drop 6 s") (simp_all add: matches_audit_digit_def)
qed

lemma matches_length: "matches_audit_digit s \<Longrightarrow> 7 \<le> length s"
proof -
  assume "matches_audit_digit s"
  then have "drop 6 s \<noteq> []" by (auto simp: matches_audit_digit_def)
  then show ?thesis by simp
qed

lemma matches_append_long:
  "7 \<le> length xs \<Longrightarrow> matches_audit_digit (xs @ ys) = matches_audit_digit xs"
proof -
  assume "7 \<le> length xs"
  then have "take 7 (xs @ ys) = take 7 xs" by simp
  then show ?thesis by (metis matches_take7)
qed

lemma is_digit_not_a: "is_digit d \<Longrightarrow> d \<noteq> CHR ''a''"
  by (auto simp: is_digit_def)

lemma short_list:
  "length xs < 7 \<Longrightarrow> xs = [] \<or> (\<exists>a. xs = [a]) \<or> (\<exists>a b. xs = [a, b]) \<or> (\<exists>a b c. xs = [a, b, c])
     \<or> (\<exists>a b c d. xs = [a, b, c, d]) \<or> (\<exists>a b c d e. xs = [a, b, c, d, e])
     \<or> (\<exists>a b c d e f. xs = [a, b, c, d, e, f])"
  by (auto simp: less_Suc_eq numeral_eq_Suc length_Suc_conv)

lemma matches_no_overlap:
  assumes "matches_audit_digit (pre @ ''audit-'' @ rest)" and "pre \<noteq> []"
  shows "matches_audit_digit pre"
proof (cases "7 \<le> length pre")
  case True
  with assms(1) show ?thesis by (simp add: matches_append_long)
next
  case False
  then have "length pre < 7" by simp
  from short_list[OF this] assms show ?thesis
    by (auto simp: matches_audit_digit_def is_digit_def)
qed

lemma contains_append_audit:
  "contains_audit_digit (pre @ ''audit-'') = contains_audit_digit pre"
proof (induction pre)
  case Nil
  show ?case by (simp add: matches_audit_digit_def)
next
  case (Cons c cs)
  have "matches_audit_digit ((c # cs) @ ''audit-'') = matches_audit_digit (c # cs)"
  proof
    assume "matches_audit_digit ((c # cs) @ ''audit-'')"
    then have "matches_audit_digit ((c # cs) @ ''audit-'' @ [])" by simp
    then show "matches_audit_digit (c # cs)" by (rule matches_no_overlap) simp
  next
    assume m: "matches_audit_digit (c # cs)"
    then have "7 \<le> length (c # cs)" by (rule matches_length)
    with m show "matches_audit_digit ((c # cs) @ ''audit-'')" by (simp only: matches_append_long)
  qed
  with Cons show ?case by simp
qed

lemma replace_no_match: "\<not> contains_audit_digit s \<Longrightarrow> replace_audit_digit s = s"
  by (induction s) auto

lemma replace_first_match:
  assumes "is_digit d" and "\<not> contains_audit_digit pre"
  shows "replace_audit_digit (pre @ ''audit-'' @ d # post) = pre @ ''audit'' @ post"
  using assms(2)
proof (induction pre)
  case Nil
  from assms(1) show ?case by (simp add: matches_audit_digit_def)
next
  case (Cons c cs)
  then have nm: "\<not> matches_audit_digit (c # cs)" and nc: "\<not> contains_audit_digit cs" by simp_all
  have "\<not> matches_audit_digit ((c # cs) @ ''audit-'' @ d # post)"
    using matches_no_overlap[of "c # cs" "d # post"] nm by auto
  with Cons.IH[OF nc] show ?case by simp
qed

lemma contains_append_right: "contains_audit_digit post \<Longrightarrow> contains_audit_digit (pre @ post)"
proof (induction pre)
  case Nil then show ?case by simp
next
  case (Cons c cs)
  then show ?case by simp
qed

lemma count_zero_iff: "count_audit_digit s = 0 \<longleftrightarrow> \<not> contains_audit_digit s"
  by (induction s) auto

lemma matches_append_audit:
  "pre \<noteq> [] \<Longrightarrow> matches_audit_digit (pre @ ''audit-'' @ rest) = matches_audit_digit pre"
proof
  assume a: "pre \<noteq> []" "matches_audit_digit (pre @ ''audit-'' @ rest)"
  from a(2) a(1) show "matches_audit_digit pre" by (rule matches_no_overlap)
next
  assume "matches_audit_digit pre"
  then show "matches_audit_digit (pre @ ''audit-'' @ rest)"
    using matches_append_long matches_length by blast
qed

lemma count_after_match:
  "is_digit d \<Longrightarrow> count_audit_digit (''audit-'' @ d # post) = Suc (count_audit_digit post)"
  using is_digit_not_a[of d] by (auto simp: matches_audit_digit_def)

lemma count_split:
  assumes "is_digit d"
  shows "count_audit_digit (pre @ ''audit-'' @ d # post) =
           count_audit_digit pre + Suc (count_audit_digit post)"
proof (induction pre)
  case Nil
  from assms show ?case using count_after_match by simp
next
  case (Cons c cs)
  have "matches_audit_digit ((c # cs) @ ''audit-'' @ d # post) = matches_audit_digit (c # cs)"
    by (rule matches_append_audit) simp
  with Cons show ?case by simp
qed

lemma first_match:
  "contains_audit_digit s \<Longrightarrow>
     \<exists>pre d post. s = pre @ ''audit-'' @ d # post \<and> is_digit d \<and> \<not> contains_audit_digit pre"
proof (induction s)
  case Nil
  then show ?case by simp
next
  case (Cons c cs)
  show ?case
  proof (cases "matches_audit_digit (c # cs)")
    case True
    then have t: "take 6 (c # cs) = ''audit-''" by (simp add: matches_audit_digit_def)
    from True obtain d post where d: "drop 6 (c # cs) = d # post" "is_digit d"
      by (auto simp: matches_audit_digit_def split: list.splits)
    have "c # cs = take 6 (c # cs) @ drop 6 (c # cs)" by (simp only: append_take_drop_id)
    with t d have "c # cs = [] @ ''audit-'' @ d # post" by simp
    with d(2) show ?thesis by (metis contains_audit_digit.simps(1))
  next
    case False
    with Cons.prems have "contains_audit_digit cs" by simp
    from Cons.IH[OF this] obtain pre d post where
      s: "cs = pre @ ''audit-'' @ d # post" "is_digit d" "\<not> contains_audit_digit pre"
      by blast
    have "\<not> matches_audit_digit (c # pre)"
    proof
      assume "matches_audit_digit (c # pre)"
      then have "matches_audit_digit ((c # pre) @ ''audit-'' @ d # post)"
        by (simp only: matches_append_audit[of "c # pre"] list.distinct not_False_eq_True)
      with s(1) False show False by simp
    qed
    with s(3) have "\<not> contains_audit_digit (c # pre)" by simp
    moreover from s(1) have "c # cs = (c # pre) @ ''audit-'' @ d # post" by simp
    ultimately show ?thesis using s(2) by blast
  qed
qed

subsection \<open>Facts about \<^verbatim>\<open>removedKids\<close>\<close>

lemma removed_entry_row:
  "concat (map (removed_entry pik) curs) =
     map entry_of_pair (filter lost_kids
       (filter (\<lambda>(p, c). IssuerKids.iss p = IssuerKids.iss c) (map (Pair pik) curs)))"
  by (induction curs) (simp_all add: removed_entry_def entry_of_pair_def lost_kids_def)

lemma removed_entry_product:
  "concat (map (\<lambda>pik. concat (map (removed_entry pik) curs)) prevs) =
     map entry_of_pair (filter lost_kids (matching_pairs prevs curs))"
  by (induction prevs) (simp_all add: matching_pairs_def removed_entry_row)

lemma audit_removedKids_pairs:
  "removedKids (audit isTest currentLog (Some previousLog)) =
     Some (map entry_of_pair (filter lost_kids
       (matching_pairs (getIssuerKids isTest previousLog) (getIssuerKids isTest currentLog))))"
  by (simp add: audit_removedKids compare_all_eq removed_entry_product)

lemma iss_getIssuerKids: "map IssuerKids.iss (getIssuerKids isTest log) = getIssuers isTest log"
  by (simp add: getIssuerKids_def getIssuers_def)

lemma count_matching_row:
  "length (filter (\<lambda>c. IssuerKids.iss pik = x \<and> IssuerKids.iss c = x) curs) =
     (if IssuerKids.iss pik = x then count_list (map IssuerKids.iss curs) x else 0)"
  by (induction curs) auto

lemma count_matching_pairs:
  "length (filter (\<lambda>(p, c). IssuerKids.iss p = x) (matching_pairs prevs curs)) =
     count_list (map IssuerKids.iss prevs) x * count_list (map IssuerKids.iss curs) x"
proof -
  have eq: "filter (\<lambda>(p, c). IssuerKids.iss p = x) (matching_pairs prevs curs) =
        filter (\<lambda>(p, c). IssuerKids.iss p = x \<and> IssuerKids.iss c = x) (List.product prevs curs)"
    unfolding matching_pairs_def filter_filter
    by (rule filter_cong) auto
  have "length (filter (\<lambda>(p, c). IssuerKids.iss p = x \<and> IssuerKids.iss c = x) (List.product prevs curs)) =
        count_list (map IssuerKids.iss prevs) x * count_list (map IssuerKids.iss curs) x"
    by (induction prevs) (simp_all add: comp_def count_matching_row)
  with eq show ?thesis by simp
qed

lemma set_matching_pairs:
  "set (matching_pairs prevs curs) =
     {(p, c). p \<in> set prevs \<and> c \<in> set curs \<and> IssuerKids.iss p = IssuerKids.iss c}"
  by (auto simp: matching_pairs_def)

lemma set_kids_difference:
  "set (kids_difference pik cik) = set (kids pik) - set (kids cik)"
  by (auto simp: kids_difference_def)

lemma kids_difference_Nil_iff:
  "kids_difference pik cik = [] \<longleftrightarrow> set (kids pik) \<subseteq> set (kids cik)"
  by (auto simp: kids_difference_def filter_empty_conv)

lemma mem_removed_pairs:
  "e \<in> set (map entry_of_pair (filter lost_kids (matching_pairs prevs curs))) \<longleftrightarrow>
     (\<exists>p \<in> set prevs. \<exists>c \<in> set curs.
        IssuerKids.iss p = IssuerKids.iss c \<and> kids_difference p c \<noteq> []
        \<and> e = \<lparr>IssuerKids.iss = IssuerKids.iss p, kids = kids_difference p c\<rparr>)"
proof
  assume "e \<in> set (map entry_of_pair (filter lost_kids (matching_pairs prevs curs)))"
  then obtain pc where "pc \<in> set (matching_pairs prevs curs)" "lost_kids pc" "e = entry_of_pair pc"
    by auto
  moreover obtain p c where "pc = (p, c)" by (cases pc)
  ultimately have "p \<in> set prevs" "c \<in> set curs" "IssuerKids.iss p = IssuerKids.iss c"
    "kids_difference p c \<noteq> []"
    "e = \<lparr>IssuerKids.iss = IssuerKids.iss p, kids = kids_difference p c\<rparr>"
    by (simp_all add: set_matching_pairs lost_kids_def entry_of_pair_def)
  then show "\<exists>p \<in> set prevs. \<exists>c \<in> set curs.
        IssuerKids.iss p = IssuerKids.iss c \<and> kids_difference p c \<noteq> []
        \<and> e = \<lparr>IssuerKids.iss = IssuerKids.iss p, kids = kids_difference p c\<rparr>"
    by blast
next
  assume "\<exists>p \<in> set prevs. \<exists>c \<in> set curs.
        IssuerKids.iss p = IssuerKids.iss c \<and> kids_difference p c \<noteq> []
        \<and> e = \<lparr>IssuerKids.iss = IssuerKids.iss p, kids = kids_difference p c\<rparr>"
  then obtain p c where pc: "p \<in> set prevs" "c \<in> set curs" "IssuerKids.iss p = IssuerKids.iss c"
    "kids_difference p c \<noteq> []"
    "e = \<lparr>IssuerKids.iss = IssuerKids.iss p, kids = kids_difference p c\<rparr>"
    by blast
  then have "(p, c) \<in> set (filter lost_kids (matching_pairs prevs curs))"
    by (simp add: set_matching_pairs lost_kids_def)
  then have "entry_of_pair (p, c) \<in> entry_of_pair ` set (filter lost_kids (matching_pairs prevs curs))"
    by (rule imageI)
  with pc(5) show "e \<in> set (map entry_of_pair (filter lost_kids (matching_pairs prevs curs)))"
    by (simp add: entry_of_pair_def)
qed

lemma no_lost_kids_iff:
  "(\<forall>pc \<in> set (matching_pairs K K). \<not> lost_kids pc) \<longleftrightarrow>
     (\<forall>p \<in> set K. \<forall>c \<in> set K.
        IssuerKids.iss p = IssuerKids.iss c \<longrightarrow> set (kids p) = set (kids c))"
proof (intro iffI ballI impI)
  fix p c
  assume none: "\<forall>pc \<in> set (matching_pairs K K). \<not> lost_kids pc"
    and pc: "p \<in> set K" "c \<in> set K" "IssuerKids.iss p = IssuerKids.iss c"
  from pc have "(p, c) \<in> set (matching_pairs K K)" "(c, p) \<in> set (matching_pairs K K)"
    by (simp_all add: set_matching_pairs)
  with none have "\<not> lost_kids (p, c)" "\<not> lost_kids (c, p)" by blast+
  then have "set (kids p) \<subseteq> set (kids c)" "set (kids c) \<subseteq> set (kids p)"
    by (simp_all add: lost_kids_def kids_difference_Nil_iff)
  then show "set (kids p) = set (kids c)" by (rule subset_antisym)
next
  fix pc
  assume same: "\<forall>p \<in> set K. \<forall>c \<in> set K.
        IssuerKids.iss p = IssuerKids.iss c \<longrightarrow> set (kids p) = set (kids c)"
    and mem: "pc \<in> set (matching_pairs K K)"
  obtain p c where [simp]: "pc = (p, c)" by (cases pc)
  from mem have "p \<in> set K" "c \<in> set K" "IssuerKids.iss p = IssuerKids.iss c"
    by (simp_all add: set_matching_pairs)
  with same have "set (kids p) = set (kids c)" by blast
  then show "\<not> lost_kids pc"
    by (simp add: lost_kids_def kids_difference_Nil_iff)
qed

subsection \<open>The claims about the auditor\<close>

text \<open>
  C3. With a previous snapshot, \<^verbatim>\<open>removedKids\<close> holds an entry exactly for the pairs of a
  previous and a current entry with the same normalised identifier whose difference of
  kids (previous minus current) is not empty, and the entry carries the identifier and that
  difference. So the identifier of every entry occurs in both snapshots, and an identifier
  appears in \<^verbatim>\<open>removedKids\<close> exactly when one of its pairs has a previous kid that the
  current entry lacks: an issuer that only gained kids does not appear. The two scenarios
  of the specification: previous \<^verbatim>\<open>A\<close> with kids \<^verbatim>\<open>k1, k2\<close> and current \<^verbatim>\<open>A\<close> with
  \<^verbatim>\<open>k1\<close> give \<^verbatim>\<open>[{iss: A, kids: [k2]}]\<close>; previous \<^verbatim>\<open>k1\<close> and current
  \<^verbatim>\<open>k1, k2\<close> give \<^verbatim>\<open>[]\<close>.
\<close>

theorem audit_removedKids_both_snapshots:
  "(\<exists>rk. removedKids (audit isTest currentLog (Some previousLog)) = Some rk
     \<and> (\<forall>e. e \<in> set rk \<longleftrightarrow>
          (\<exists>pik \<in> set (getIssuerKids isTest previousLog).
           \<exists>cik \<in> set (getIssuerKids isTest currentLog).
             IssuerKids.iss pik = IssuerKids.iss cik
             \<and> kids_difference pik cik \<noteq> []
             \<and> e = \<lparr>IssuerKids.iss = IssuerKids.iss pik, kids = kids_difference pik cik\<rparr>))
     \<and> (\<forall>e \<in> set rk. IssuerKids.iss e \<in> set (getIssuers isTest previousLog)
                       \<and> IssuerKids.iss e \<in> set (getIssuers isTest currentLog)
                       \<and> kids e \<noteq> [])
     \<and> (\<forall>x. x \<in> IssuerKids.iss ` set rk \<longleftrightarrow>
          (\<exists>pik \<in> set (getIssuerKids isTest previousLog).
           \<exists>cik \<in> set (getIssuerKids isTest currentLog).
             IssuerKids.iss pik = x \<and> IssuerKids.iss cik = x
             \<and> \<not> set (kids pik) \<subseteq> set (kids cik))))
   \<and> set (kids_difference pik cik) = set (kids pik) - set (kids cik)
   \<and> removedKids
        (audit isTest
           \<lparr>DirectoryLog.directory = d1, time = t1,
            issuerInfo = [\<lparr>issuer = \<lparr>TrustedIssuer.iss = ''A'', name = n1\<rparr>,
                           keys = [\<lparr>kid = ''k1'', material = m1\<rparr>], errors = e1\<rparr>]\<rparr>
           (Some \<lparr>DirectoryLog.directory = d2, time = t2,
                  issuerInfo = [\<lparr>issuer = \<lparr>TrustedIssuer.iss = ''A'', name = n2\<rparr>,
                                 keys = [\<lparr>kid = ''k1'', material = m2\<rparr>,
                                         \<lparr>kid = ''k2'', material = m3\<rparr>],
                                 errors = e2\<rparr>]\<rparr>))
       = Some [\<lparr>IssuerKids.iss = ''A'', kids = [''k2'']\<rparr>]
   \<and> removedKids
        (audit isTest
           \<lparr>DirectoryLog.directory = d1, time = t1,
            issuerInfo = [\<lparr>issuer = \<lparr>TrustedIssuer.iss = ''A'', name = n1\<rparr>,
                           keys = [\<lparr>kid = ''k1'', material = m1\<rparr>,
                                   \<lparr>kid = ''k2'', material = m3\<rparr>],
                           errors = e1\<rparr>]\<rparr>
           (Some \<lparr>DirectoryLog.directory = d2, time = t2,
                  issuerInfo = [\<lparr>issuer = \<lparr>TrustedIssuer.iss = ''A'', name = n2\<rparr>,
                                 keys = [\<lparr>kid = ''k1'', material = m2\<rparr>], errors = e2\<rparr>]\<rparr>))
       = Some []"
proof -
  let ?P = "getIssuerKids isTest previousLog"
  let ?C = "getIssuerKids isTest currentLog"
  let ?rk = "map entry_of_pair (filter lost_kids (matching_pairs ?P ?C))"
  have rk: "removedKids (audit isTest currentLog (Some previousLog)) = Some ?rk"
    by (rule audit_removedKids_pairs)
  have mem: "e \<in> set ?rk \<longleftrightarrow>
          (\<exists>pik \<in> set ?P. \<exists>cik \<in> set ?C.
             IssuerKids.iss pik = IssuerKids.iss cik
             \<and> kids_difference pik cik \<noteq> []
             \<and> e = \<lparr>IssuerKids.iss = IssuerKids.iss pik, kids = kids_difference pik cik\<rparr>)" for e
    by (rule mem_removed_pairs)
  have both: "IssuerKids.iss e \<in> set (getIssuers isTest previousLog)
                \<and> IssuerKids.iss e \<in> set (getIssuers isTest currentLog) \<and> kids e \<noteq> []"
    if "e \<in> set ?rk" for e
  proof -
    from that obtain pik cik where pc: "pik \<in> set ?P" "cik \<in> set ?C"
      "IssuerKids.iss pik = IssuerKids.iss cik" "kids_difference pik cik \<noteq> []"
      "e = \<lparr>IssuerKids.iss = IssuerKids.iss pik, kids = kids_difference pik cik\<rparr>"
      unfolding mem by blast
    from pc(1) have "IssuerKids.iss pik \<in> set (map IssuerKids.iss ?P)" by simp
    moreover from pc(2) have "IssuerKids.iss cik \<in> set (map IssuerKids.iss ?C)" by simp
    ultimately show ?thesis using pc(3,4,5) by (simp add: iss_getIssuerKids)
  qed
  have appear: "x \<in> IssuerKids.iss ` set ?rk \<longleftrightarrow>
          (\<exists>pik \<in> set ?P. \<exists>cik \<in> set ?C.
             IssuerKids.iss pik = x \<and> IssuerKids.iss cik = x
             \<and> \<not> set (kids pik) \<subseteq> set (kids cik))" for x
  proof
    assume "x \<in> IssuerKids.iss ` set ?rk"
    then obtain e where e: "e \<in> set ?rk" "x = IssuerKids.iss e" by blast
    from e(1) obtain pik cik where pc: "pik \<in> set ?P" "cik \<in> set ?C"
      "IssuerKids.iss pik = IssuerKids.iss cik" "kids_difference pik cik \<noteq> []"
      "e = \<lparr>IssuerKids.iss = IssuerKids.iss pik, kids = kids_difference pik cik\<rparr>"
      unfolding mem by blast
    from pc(4) have "\<not> set (kids pik) \<subseteq> set (kids cik)"
      by (simp add: kids_difference_Nil_iff)
    moreover from e(2) pc(3,5) have "IssuerKids.iss pik = x" "IssuerKids.iss cik = x" by simp_all
    ultimately show "\<exists>pik \<in> set ?P. \<exists>cik \<in> set ?C.
             IssuerKids.iss pik = x \<and> IssuerKids.iss cik = x
             \<and> \<not> set (kids pik) \<subseteq> set (kids cik)"
      using pc(1,2) by blast
  next
    assume "\<exists>pik \<in> set ?P. \<exists>cik \<in> set ?C.
             IssuerKids.iss pik = x \<and> IssuerKids.iss cik = x
             \<and> \<not> set (kids pik) \<subseteq> set (kids cik)"
    then obtain pik cik where pc: "pik \<in> set ?P" "cik \<in> set ?C" "IssuerKids.iss pik = x"
      "IssuerKids.iss cik = x" "kids_difference pik cik \<noteq> []"
      unfolding kids_difference_Nil_iff[symmetric] by blast
    then have "IssuerKids.iss pik = IssuerKids.iss cik \<and> kids_difference pik cik \<noteq> []
             \<and> \<lparr>IssuerKids.iss = IssuerKids.iss pik, kids = kids_difference pik cik\<rparr>
                 = \<lparr>IssuerKids.iss = IssuerKids.iss pik, kids = kids_difference pik cik\<rparr>"
      by simp
    from this pc(2) have "\<exists>c \<in> set ?C.
             IssuerKids.iss pik = IssuerKids.iss c \<and> kids_difference pik c \<noteq> []
             \<and> \<lparr>IssuerKids.iss = IssuerKids.iss pik, kids = kids_difference pik cik\<rparr>
                 = \<lparr>IssuerKids.iss = IssuerKids.iss pik, kids = kids_difference pik c\<rparr>"
      by (rule bexI)
    from this pc(1) have "\<exists>p \<in> set ?P. \<exists>c \<in> set ?C.
             IssuerKids.iss p = IssuerKids.iss c \<and> kids_difference p c \<noteq> []
             \<and> \<lparr>IssuerKids.iss = IssuerKids.iss pik, kids = kids_difference pik cik\<rparr>
                 = \<lparr>IssuerKids.iss = IssuerKids.iss p, kids = kids_difference p c\<rparr>"
      by (rule bexI)
    then have "\<lparr>IssuerKids.iss = IssuerKids.iss pik, kids = kids_difference pik cik\<rparr> \<in> set ?rk"
      by (simp only: mem)
    then have "IssuerKids.iss \<lparr>IssuerKids.iss = IssuerKids.iss pik, kids = kids_difference pik cik\<rparr>
                 \<in> IssuerKids.iss ` set ?rk"
      by (rule imageI)
    with pc(3) show "x \<in> IssuerKids.iss ` set ?rk" by simp
  qed
  have general: "\<exists>rk. removedKids (audit isTest currentLog (Some previousLog)) = Some rk
     \<and> (\<forall>e. e \<in> set rk \<longleftrightarrow>
          (\<exists>pik \<in> set ?P. \<exists>cik \<in> set ?C.
             IssuerKids.iss pik = IssuerKids.iss cik
             \<and> kids_difference pik cik \<noteq> []
             \<and> e = \<lparr>IssuerKids.iss = IssuerKids.iss pik, kids = kids_difference pik cik\<rparr>))
     \<and> (\<forall>e \<in> set rk. IssuerKids.iss e \<in> set (getIssuers isTest previousLog)
                       \<and> IssuerKids.iss e \<in> set (getIssuers isTest currentLog)
                       \<and> kids e \<noteq> [])
     \<and> (\<forall>x. x \<in> IssuerKids.iss ` set rk \<longleftrightarrow>
          (\<exists>pik \<in> set ?P. \<exists>cik \<in> set ?C.
             IssuerKids.iss pik = x \<and> IssuerKids.iss cik = x
             \<and> \<not> set (kids pik) \<subseteq> set (kids cik)))"
    using rk mem both appear by blast
  have scenarios: "removedKids
        (audit isTest
           \<lparr>DirectoryLog.directory = d1, time = t1,
            issuerInfo = [\<lparr>issuer = \<lparr>TrustedIssuer.iss = ''A'', name = n1\<rparr>,
                           keys = [\<lparr>kid = ''k1'', material = m1\<rparr>], errors = e1\<rparr>]\<rparr>
           (Some \<lparr>DirectoryLog.directory = d2, time = t2,
                  issuerInfo = [\<lparr>issuer = \<lparr>TrustedIssuer.iss = ''A'', name = n2\<rparr>,
                                 keys = [\<lparr>kid = ''k1'', material = m2\<rparr>,
                                         \<lparr>kid = ''k2'', material = m3\<rparr>],
                                 errors = e2\<rparr>]\<rparr>))
       = Some [\<lparr>IssuerKids.iss = ''A'', kids = [''k2'']\<rparr>]"
    "removedKids
        (audit isTest
           \<lparr>DirectoryLog.directory = d1, time = t1,
            issuerInfo = [\<lparr>issuer = \<lparr>TrustedIssuer.iss = ''A'', name = n1\<rparr>,
                           keys = [\<lparr>kid = ''k1'', material = m1\<rparr>,
                                   \<lparr>kid = ''k2'', material = m3\<rparr>],
                           errors = e1\<rparr>]\<rparr>
           (Some \<lparr>DirectoryLog.directory = d2, time = t2,
                  issuerInfo = [\<lparr>issuer = \<lparr>TrustedIssuer.iss = ''A'', name = n2\<rparr>,
                                 keys = [\<lparr>kid = ''k1'', material = m2\<rparr>], errors = e2\<rparr>]\<rparr>))
       = Some []"
    by (simp_all add: audit_removedKids_pairs getIssuerKids_def getIssuerUrl_def
        matches_audit_digit_def matching_pairs_def entry_of_pair_def lost_kids_def
        kids_difference_def)
  from general scenarios set_kids_difference[of pik cik] show ?thesis by (intro conjI)
qed

theorem audit_removedKids_both_snapshots_witness:
  "removedKids
     (audit False
        \<lparr>DirectoryLog.directory = ''d'', time = ''t1'',
         issuerInfo = [\<lparr>issuer = \<lparr>TrustedIssuer.iss = ''A'', name = ''a''\<rparr>,
                        keys = [\<lparr>kid = ''k1'', material = ''m1''\<rparr>], errors = Some []\<rparr>,
                       \<lparr>issuer = \<lparr>TrustedIssuer.iss = ''B'', name = ''b''\<rparr>,
                        keys = [], errors = Some []\<rparr>]\<rparr>
        (Some \<lparr>DirectoryLog.directory = ''d'', time = ''t0'',
               issuerInfo = [\<lparr>issuer = \<lparr>TrustedIssuer.iss = ''A'', name = ''a''\<rparr>,
                              keys = [\<lparr>kid = ''k1'', material = ''m1''\<rparr>,
                                      \<lparr>kid = ''k2'', material = ''m2''\<rparr>],
                              errors = Some []\<rparr>,
                             \<lparr>issuer = \<lparr>TrustedIssuer.iss = ''C'', name = ''c''\<rparr>,
                              keys = [\<lparr>kid = ''k3'', material = ''m3''\<rparr>],
                              errors = Some []\<rparr>]\<rparr>))
     = Some [\<lparr>IssuerKids.iss = ''A'', kids = [''k2'']\<rparr>]
   \<and> set (kids_difference \<lparr>IssuerKids.iss = ''A'', kids = [''k1'', ''k2'']\<rparr>
                            \<lparr>IssuerKids.iss = ''A'', kids = [''k1'']\<rparr>) = {''k2''}"
  using audit_removedKids_both_snapshots
    [of False
      "\<lparr>DirectoryLog.directory = ''d'', time = ''t1'',
         issuerInfo = [\<lparr>issuer = \<lparr>TrustedIssuer.iss = ''A'', name = ''a''\<rparr>,
                        keys = [\<lparr>kid = ''k1'', material = ''m1''\<rparr>], errors = Some []\<rparr>,
                       \<lparr>issuer = \<lparr>TrustedIssuer.iss = ''B'', name = ''b''\<rparr>,
                        keys = [], errors = Some []\<rparr>]\<rparr>"
      "\<lparr>DirectoryLog.directory = ''d'', time = ''t0'',
               issuerInfo = [\<lparr>issuer = \<lparr>TrustedIssuer.iss = ''A'', name = ''a''\<rparr>,
                              keys = [\<lparr>kid = ''k1'', material = ''m1''\<rparr>,
                                      \<lparr>kid = ''k2'', material = ''m2''\<rparr>],
                              errors = Some []\<rparr>,
                             \<lparr>issuer = \<lparr>TrustedIssuer.iss = ''C'', name = ''c''\<rparr>,
                              keys = [\<lparr>kid = ''k3'', material = ''m3''\<rparr>],
                              errors = Some []\<rparr>]\<rparr>"
      "\<lparr>IssuerKids.iss = ''A'', kids = [''k1'', ''k2'']\<rparr>"
      "\<lparr>IssuerKids.iss = ''A'', kids = [''k1'']\<rparr>"]
  by (simp add: audit_removedKids_pairs getIssuerKids_def getIssuerUrl_def
      matching_pairs_def entry_of_pair_def lost_kids_def kids_difference_def)

text \<open>
  C6 (as amended). Auditing a snapshot against itself gives \<^verbatim>\<open>newIssuerCount = 0\<close> and
  \<^verbatim>\<open>deletedIssuerCount = 0\<close>, for every snapshot and test-mode flag. \<^verbatim>\<open>removedKids\<close> is
  empty exactly when the entries of the snapshot that share a normalised identifier have
  the same set of kids, and so whenever the normalised identifiers of the snapshot are
  pairwise distinct.
\<close>

theorem audit_same_snapshot:
  "newIssuerCount (audit isTest s (Some s)) = Some 0
   \<and> deletedIssuerCount (audit isTest s (Some s)) = Some 0
   \<and> (removedKids (audit isTest s (Some s)) = Some [] \<longleftrightarrow>
        (\<forall>p \<in> set (getIssuerKids isTest s). \<forall>c \<in> set (getIssuerKids isTest s).
           IssuerKids.iss p = IssuerKids.iss c \<longrightarrow> set (kids p) = set (kids c)))
   \<and> (distinct (getIssuers isTest s) \<longrightarrow> removedKids (audit isTest s (Some s)) = Some [])"
proof -
  let ?K = "getIssuerKids isTest s"
  have new: "newIssuerCount (audit isTest s (Some s)) = Some 0"
    by (simp add: audit_newIssuerCount count_not_included_eq)
  have del: "deletedIssuerCount (audit isTest s (Some s)) = Some 0"
    by (simp add: audit_deletedIssuerCount count_not_included_eq)
  have "removedKids (audit isTest s (Some s)) = Some [] \<longleftrightarrow>
          (\<forall>pc \<in> set (matching_pairs ?K ?K). \<not> lost_kids pc)"
    by (simp add: audit_removedKids_pairs filter_empty_conv)
  then have iff: "removedKids (audit isTest s (Some s)) = Some [] \<longleftrightarrow>
        (\<forall>p \<in> set ?K. \<forall>c \<in> set ?K.
           IssuerKids.iss p = IssuerKids.iss c \<longrightarrow> set (kids p) = set (kids c))"
    by (simp only: no_lost_kids_iff)
  have dist: "removedKids (audit isTest s (Some s)) = Some []" if d: "distinct (getIssuers isTest s)"
  proof -
    from d have "distinct (map IssuerKids.iss ?K)" by (simp add: iss_getIssuerKids)
    then have inj: "inj_on IssuerKids.iss (set ?K)" by (simp add: distinct_map)
    have "\<forall>p \<in> set ?K. \<forall>c \<in> set ?K.
           IssuerKids.iss p = IssuerKids.iss c \<longrightarrow> set (kids p) = set (kids c)"
    proof (intro ballI impI)
      fix p c
      assume "p \<in> set ?K" "c \<in> set ?K" "IssuerKids.iss p = IssuerKids.iss c"
      with inj have "p = c" by (simp add: inj_on_def)
      then show "set (kids p) = set (kids c)" by simp
    qed
    then show ?thesis by (simp only: iff)
  qed
  from new del iff dist show ?thesis by blast
qed

text \<open>
  The amended statement at a snapshot with the distinct issuers \<^verbatim>\<open>A\<close> and \<^verbatim>\<open>B\<close>.
\<close>

theorem audit_same_snapshot_witness:
  "distinct (getIssuers False
      \<lparr>DirectoryLog.directory = ''d'', time = ''t'',
       issuerInfo = [\<lparr>issuer = \<lparr>TrustedIssuer.iss = ''A'', name = ''a''\<rparr>,
                      keys = [\<lparr>kid = ''k1'', material = ''m1''\<rparr>], errors = Some []\<rparr>,
                     \<lparr>issuer = \<lparr>TrustedIssuer.iss = ''B'', name = ''b''\<rparr>,
                      keys = [\<lparr>kid = ''k2'', material = ''m2''\<rparr>], errors = Some []\<rparr>]\<rparr>)
   \<and> removedKids (audit False
      \<lparr>DirectoryLog.directory = ''d'', time = ''t'',
       issuerInfo = [\<lparr>issuer = \<lparr>TrustedIssuer.iss = ''A'', name = ''a''\<rparr>,
                      keys = [\<lparr>kid = ''k1'', material = ''m1''\<rparr>], errors = Some []\<rparr>,
                     \<lparr>issuer = \<lparr>TrustedIssuer.iss = ''B'', name = ''b''\<rparr>,
                      keys = [\<lparr>kid = ''k2'', material = ''m2''\<rparr>], errors = Some []\<rparr>]\<rparr>
      (Some \<lparr>DirectoryLog.directory = ''d'', time = ''t'',
       issuerInfo = [\<lparr>issuer = \<lparr>TrustedIssuer.iss = ''A'', name = ''a''\<rparr>,
                      keys = [\<lparr>kid = ''k1'', material = ''m1''\<rparr>], errors = Some []\<rparr>,
                     \<lparr>issuer = \<lparr>TrustedIssuer.iss = ''B'', name = ''b''\<rparr>,
                      keys = [\<lparr>kid = ''k2'', material = ''m2''\<rparr>], errors = Some []\<rparr>]\<rparr>))
     = Some []"
  using audit_same_snapshot
    [of False
      "\<lparr>DirectoryLog.directory = ''d'', time = ''t'',
       issuerInfo = [\<lparr>issuer = \<lparr>TrustedIssuer.iss = ''A'', name = ''a''\<rparr>,
                      keys = [\<lparr>kid = ''k1'', material = ''m1''\<rparr>], errors = Some []\<rparr>,
                     \<lparr>issuer = \<lparr>TrustedIssuer.iss = ''B'', name = ''b''\<rparr>,
                      keys = [\<lparr>kid = ''k2'', material = ''m2''\<rparr>], errors = Some []\<rparr>]\<rparr>"]
  by (simp add: getIssuers_def getIssuerUrl_def)

text \<open>
  The claim as it is written fails at a snapshot that lists the issuer \<^verbatim>\<open>A\<close> twice, once
  with the kid \<^verbatim>\<open>k1\<close> and once with the kid \<^verbatim>\<open>k2\<close>: each entry is compared with the
  other one, and both comparisons report a removed kid.
\<close>

theorem audit_same_snapshot_counterexample:
  "removedKids (audit False
      \<lparr>DirectoryLog.directory = ''d'', time = ''t'',
       issuerInfo = [\<lparr>issuer = \<lparr>TrustedIssuer.iss = ''A'', name = ''a''\<rparr>,
                      keys = [\<lparr>kid = ''k1'', material = ''m1''\<rparr>], errors = Some []\<rparr>,
                     \<lparr>issuer = \<lparr>TrustedIssuer.iss = ''A'', name = ''a''\<rparr>,
                      keys = [\<lparr>kid = ''k2'', material = ''m2''\<rparr>], errors = Some []\<rparr>]\<rparr>
      (Some \<lparr>DirectoryLog.directory = ''d'', time = ''t'',
       issuerInfo = [\<lparr>issuer = \<lparr>TrustedIssuer.iss = ''A'', name = ''a''\<rparr>,
                      keys = [\<lparr>kid = ''k1'', material = ''m1''\<rparr>], errors = Some []\<rparr>,
                     \<lparr>issuer = \<lparr>TrustedIssuer.iss = ''A'', name = ''a''\<rparr>,
                      keys = [\<lparr>kid = ''k2'', material = ''m2''\<rparr>], errors = Some []\<rparr>]\<rparr>))
     = Some [\<lparr>IssuerKids.iss = ''A'', kids = [''k1'']\<rparr>,
             \<lparr>IssuerKids.iss = ''A'', kids = [''k2'']\<rparr>]
   \<and> removedKids (audit False
      \<lparr>DirectoryLog.directory = ''d'', time = ''t'',
       issuerInfo = [\<lparr>issuer = \<lparr>TrustedIssuer.iss = ''A'', name = ''a''\<rparr>,
                      keys = [\<lparr>kid = ''k1'', material = ''m1''\<rparr>], errors = Some []\<rparr>,
                     \<lparr>issuer = \<lparr>TrustedIssuer.iss = ''A'', name = ''a''\<rparr>,
                      keys = [\<lparr>kid = ''k2'', material = ''m2''\<rparr>], errors = Some []\<rparr>]\<rparr>
      (Some \<lparr>DirectoryLog.directory = ''d'', time = ''t'',
       issuerInfo = [\<lparr>issuer = \<lparr>TrustedIssuer.iss = ''A'', name = ''a''\<rparr>,
                      keys = [\<lparr>kid = ''k1'', material = ''m1''\<rparr>], errors = Some []\<rparr>,
                     \<lparr>issuer = \<lparr>TrustedIssuer.iss = ''A'', name = ''a''\<rparr>,
                      keys = [\<lparr>kid = ''k2'', material = ''m2''\<rparr>], errors = Some []\<rparr>]\<rparr>))
     \<noteq> Some []"
  by (simp add: audit_def Let_def getIssuers_def getIssuerKids_def getIssuerUrl_def
      compare_all_def compare_pair_def collect_removed_def)

text \<open>
  C9. \<^verbatim>\<open>removedKids\<close> has one entry for each pair of a previous and a current entry with the
  same normalised identifier whose difference of kids is not empty, in the order of the
  pairs (previous entries first). An identifier that occurs \<open>m\<close> times in the previous and
  \<open>n\<close> times in the current snapshot has \<open>m * n\<close> such pairs. With \<^verbatim>\<open>A\<close> listed twice in
  the previous snapshot, each time with the kid \<^verbatim>\<open>k1\<close>, and once in the current snapshot
  without kids, the same entry is reported twice.
\<close>

theorem audit_removedKids_per_pair:
  "removedKids (audit isTest currentLog (Some previousLog)) =
     Some (map entry_of_pair (filter lost_kids
       (matching_pairs (getIssuerKids isTest previousLog) (getIssuerKids isTest currentLog))))
   \<and> length (filter (\<lambda>(pik, cik). IssuerKids.iss pik = x)
        (matching_pairs (getIssuerKids isTest previousLog) (getIssuerKids isTest currentLog)))
       = count_list (getIssuers isTest previousLog) x * count_list (getIssuers isTest currentLog) x
   \<and> matching_pairs prevs curs =
       filter (\<lambda>(pik, cik). IssuerKids.iss pik = IssuerKids.iss cik) (List.product prevs curs)
   \<and> removedKids
        (audit isTest
           \<lparr>DirectoryLog.directory = d1, time = t1,
            issuerInfo = [\<lparr>issuer = \<lparr>TrustedIssuer.iss = ''A'', name = n1\<rparr>,
                           keys = [], errors = e1\<rparr>]\<rparr>
           (Some \<lparr>DirectoryLog.directory = d2, time = t2,
                  issuerInfo = [\<lparr>issuer = \<lparr>TrustedIssuer.iss = ''A'', name = n2\<rparr>,
                                 keys = [\<lparr>kid = ''k1'', material = m2\<rparr>], errors = e2\<rparr>,
                                \<lparr>issuer = \<lparr>TrustedIssuer.iss = ''A'', name = n3\<rparr>,
                                 keys = [\<lparr>kid = ''k1'', material = m3\<rparr>], errors = e3\<rparr>]\<rparr>))
       = Some [\<lparr>IssuerKids.iss = ''A'', kids = [''k1'']\<rparr>,
               \<lparr>IssuerKids.iss = ''A'', kids = [''k1'']\<rparr>]"
proof -
  have "removedKids
        (audit isTest
           \<lparr>DirectoryLog.directory = d1, time = t1,
            issuerInfo = [\<lparr>issuer = \<lparr>TrustedIssuer.iss = ''A'', name = n1\<rparr>,
                           keys = [], errors = e1\<rparr>]\<rparr>
           (Some \<lparr>DirectoryLog.directory = d2, time = t2,
                  issuerInfo = [\<lparr>issuer = \<lparr>TrustedIssuer.iss = ''A'', name = n2\<rparr>,
                                 keys = [\<lparr>kid = ''k1'', material = m2\<rparr>], errors = e2\<rparr>,
                                \<lparr>issuer = \<lparr>TrustedIssuer.iss = ''A'', name = n3\<rparr>,
                                 keys = [\<lparr>kid = ''k1'', material = m3\<rparr>], errors = e3\<rparr>]\<rparr>))
       = Some [\<lparr>IssuerKids.iss = ''A'', kids = [''k1'']\<rparr>,
               \<lparr>IssuerKids.iss = ''A'', kids = [''k1'']\<rparr>]"
    by (simp add: audit_def Let_def getIssuers_def getIssuerKids_def getIssuerUrl_def
        matches_audit_digit_def compare_all_def compare_pair_def collect_removed_def)
  moreover have "length (filter (\<lambda>(pik, cik). IssuerKids.iss pik = x)
        (matching_pairs (getIssuerKids isTest previousLog) (getIssuerKids isTest currentLog)))
       = count_list (getIssuers isTest previousLog) x * count_list (getIssuers isTest currentLog) x"
    by (simp only: count_matching_pairs iss_getIssuerKids)
  ultimately show ?thesis
    by (simp only: audit_removedKids_pairs matching_pairs_def simp_thms)
qed

text \<open>
  C8. In test mode the comparison key of an issuer is its identifier with the leftmost
  match of \<^verbatim>\<open>audit-\<close> and a digit replaced by \<^verbatim>\<open>audit\<close> (an identifier without a match is
  its own key); outside test mode the key is the identifier itself. The keys are what
  \<^verbatim>\<open>audit\<close> compares: \<^verbatim>\<open>https://x/audit-1\<close> in the previous and \<^verbatim>\<open>https://x/audit-2\<close> in
  the current snapshot have the key \<^verbatim>\<open>https://x/audit\<close>, so in test mode no issuer is new
  or deleted and the kids of the two entries are compared, while outside test mode one
  issuer is new, one is deleted and no kids are compared.
\<close>

theorem getIssuerUrl_test_mode:
  "(is_digit d \<and> \<not> contains_audit_digit pre \<longrightarrow>
      getIssuerUrl True (pre @ ''audit-'' @ d # post) = pre @ ''audit'' @ post)
   \<and> (\<not> contains_audit_digit url \<longrightarrow> getIssuerUrl True url = url)
   \<and> getIssuerUrl False url = url
   \<and> getIssuerUrl True ''https://x/audit-1'' = ''https://x/audit''
   \<and> getIssuerUrl True ''https://x/audit-2'' = ''https://x/audit''
   \<and> getIssuers isTest log =
       map (\<lambda>info. getIssuerUrl isTest (TrustedIssuer.iss (issuer info))) (issuerInfo log)
   \<and> newIssuerCount
        (audit True
           \<lparr>DirectoryLog.directory = d1, time = t1,
            issuerInfo = [\<lparr>issuer = \<lparr>TrustedIssuer.iss = ''https://x/audit-2'', name = n1\<rparr>,
                           keys = ks1, errors = e1\<rparr>]\<rparr>
           (Some \<lparr>DirectoryLog.directory = d2, time = t2,
                  issuerInfo = [\<lparr>issuer = \<lparr>TrustedIssuer.iss = ''https://x/audit-1'', name = n2\<rparr>,
                                 keys = ks2, errors = e2\<rparr>]\<rparr>))
       = Some 0
   \<and> deletedIssuerCount
        (audit True
           \<lparr>DirectoryLog.directory = d1, time = t1,
            issuerInfo = [\<lparr>issuer = \<lparr>TrustedIssuer.iss = ''https://x/audit-2'', name = n1\<rparr>,
                           keys = ks1, errors = e1\<rparr>]\<rparr>
           (Some \<lparr>DirectoryLog.directory = d2, time = t2,
                  issuerInfo = [\<lparr>issuer = \<lparr>TrustedIssuer.iss = ''https://x/audit-1'', name = n2\<rparr>,
                                 keys = ks2, errors = e2\<rparr>]\<rparr>))
       = Some 0
   \<and> removedKids
        (audit True
           \<lparr>DirectoryLog.directory = d1, time = t1,
            issuerInfo = [\<lparr>issuer = \<lparr>TrustedIssuer.iss = ''https://x/audit-2'', name = n1\<rparr>,
                           keys = ks1, errors = e1\<rparr>]\<rparr>
           (Some \<lparr>DirectoryLog.directory = d2, time = t2,
                  issuerInfo = [\<lparr>issuer = \<lparr>TrustedIssuer.iss = ''https://x/audit-1'', name = n2\<rparr>,
                                 keys = ks2, errors = e2\<rparr>]\<rparr>))
       = Some (removed_entry \<lparr>IssuerKids.iss = ''https://x/audit'', kids = map kid ks2\<rparr>
                             \<lparr>IssuerKids.iss = ''https://x/audit'', kids = map kid ks1\<rparr>)
   \<and> newIssuerCount
        (audit False
           \<lparr>DirectoryLog.directory = d1, time = t1,
            issuerInfo = [\<lparr>issuer = \<lparr>TrustedIssuer.iss = ''https://x/audit-2'', name = n1\<rparr>,
                           keys = ks1, errors = e1\<rparr>]\<rparr>
           (Some \<lparr>DirectoryLog.directory = d2, time = t2,
                  issuerInfo = [\<lparr>issuer = \<lparr>TrustedIssuer.iss = ''https://x/audit-1'', name = n2\<rparr>,
                                 keys = ks2, errors = e2\<rparr>]\<rparr>))
       = Some 1
   \<and> deletedIssuerCount
        (audit False
           \<lparr>DirectoryLog.directory = d1, time = t1,
            issuerInfo = [\<lparr>issuer = \<lparr>TrustedIssuer.iss = ''https://x/audit-2'', name = n1\<rparr>,
                           keys = ks1, errors = e1\<rparr>]\<rparr>
           (Some \<lparr>DirectoryLog.directory = d2, time = t2,
                  issuerInfo = [\<lparr>issuer = \<lparr>TrustedIssuer.iss = ''https://x/audit-1'', name = n2\<rparr>,
                                 keys = ks2, errors = e2\<rparr>]\<rparr>))
       = Some 1
   \<and> removedKids
        (audit False
           \<lparr>DirectoryLog.directory = d1, time = t1,
            issuerInfo = [\<lparr>issuer = \<lparr>TrustedIssuer.iss = ''https://x/audit-2'', name = n1\<rparr>,
                           keys = ks1, errors = e1\<rparr>]\<rparr>
           (Some \<lparr>DirectoryLog.directory = d2, time = t2,
                  issuerInfo = [\<lparr>issuer = \<lparr>TrustedIssuer.iss = ''https://x/audit-1'', name = n2\<rparr>,
                                 keys = ks2, errors = e2\<rparr>]\<rparr>))
       = Some []"
proof -
  have first: "is_digit d \<and> \<not> contains_audit_digit pre \<longrightarrow>
      getIssuerUrl True (pre @ ''audit-'' @ d # post) = pre @ ''audit'' @ post"
    using replace_first_match[of d pre post] by (simp add: getIssuerUrl_def)
  have none: "\<not> contains_audit_digit url \<longrightarrow> getIssuerUrl True url = url"
    by (simp add: getIssuerUrl_def replace_no_match)
  have verbatim: "getIssuerUrl False u = u" for u
    by (simp add: getIssuerUrl_def)
  have k1: "getIssuerUrl True ''https://x/audit-1'' = ''https://x/audit''"
    and k2: "getIssuerUrl True ''https://x/audit-2'' = ''https://x/audit''"
    by (simp_all add: getIssuerUrl_def matches_audit_digit_def is_digit_def)
  have keys: "getIssuers isTest log =
       map (\<lambda>info. getIssuerUrl isTest (TrustedIssuer.iss (issuer info))) (issuerInfo log)"
    by (simp add: getIssuers_def)
  have test:
    "newIssuerCount
         (audit True
            \<lparr>DirectoryLog.directory = d1, time = t1,
             issuerInfo = [\<lparr>issuer = \<lparr>TrustedIssuer.iss = ''https://x/audit-2'', name = n1\<rparr>,
                            keys = ks1, errors = e1\<rparr>]\<rparr>
            (Some \<lparr>DirectoryLog.directory = d2, time = t2,
                   issuerInfo = [\<lparr>issuer = \<lparr>TrustedIssuer.iss = ''https://x/audit-1'', name = n2\<rparr>,
                                  keys = ks2, errors = e2\<rparr>]\<rparr>))
        = Some 0"
    "deletedIssuerCount
         (audit True
            \<lparr>DirectoryLog.directory = d1, time = t1,
             issuerInfo = [\<lparr>issuer = \<lparr>TrustedIssuer.iss = ''https://x/audit-2'', name = n1\<rparr>,
                            keys = ks1, errors = e1\<rparr>]\<rparr>
            (Some \<lparr>DirectoryLog.directory = d2, time = t2,
                   issuerInfo = [\<lparr>issuer = \<lparr>TrustedIssuer.iss = ''https://x/audit-1'', name = n2\<rparr>,
                                  keys = ks2, errors = e2\<rparr>]\<rparr>))
        = Some 0"
    "removedKids
         (audit True
            \<lparr>DirectoryLog.directory = d1, time = t1,
             issuerInfo = [\<lparr>issuer = \<lparr>TrustedIssuer.iss = ''https://x/audit-2'', name = n1\<rparr>,
                            keys = ks1, errors = e1\<rparr>]\<rparr>
            (Some \<lparr>DirectoryLog.directory = d2, time = t2,
                   issuerInfo = [\<lparr>issuer = \<lparr>TrustedIssuer.iss = ''https://x/audit-1'', name = n2\<rparr>,
                                  keys = ks2, errors = e2\<rparr>]\<rparr>))
        = Some (removed_entry \<lparr>IssuerKids.iss = ''https://x/audit'', kids = map kid ks2\<rparr>
                              \<lparr>IssuerKids.iss = ''https://x/audit'', kids = map kid ks1\<rparr>)"
    by (simp_all add: k1 k2 audit_newIssuerCount audit_deletedIssuerCount audit_removedKids
        compare_all_eq count_not_included_eq getIssuers_def getIssuerKids_def)
  have plain:
    "newIssuerCount
         (audit False
            \<lparr>DirectoryLog.directory = d1, time = t1,
             issuerInfo = [\<lparr>issuer = \<lparr>TrustedIssuer.iss = ''https://x/audit-2'', name = n1\<rparr>,
                            keys = ks1, errors = e1\<rparr>]\<rparr>
            (Some \<lparr>DirectoryLog.directory = d2, time = t2,
                   issuerInfo = [\<lparr>issuer = \<lparr>TrustedIssuer.iss = ''https://x/audit-1'', name = n2\<rparr>,
                                  keys = ks2, errors = e2\<rparr>]\<rparr>))
        = Some 1"
    "deletedIssuerCount
         (audit False
            \<lparr>DirectoryLog.directory = d1, time = t1,
             issuerInfo = [\<lparr>issuer = \<lparr>TrustedIssuer.iss = ''https://x/audit-2'', name = n1\<rparr>,
                            keys = ks1, errors = e1\<rparr>]\<rparr>
            (Some \<lparr>DirectoryLog.directory = d2, time = t2,
                   issuerInfo = [\<lparr>issuer = \<lparr>TrustedIssuer.iss = ''https://x/audit-1'', name = n2\<rparr>,
                                  keys = ks2, errors = e2\<rparr>]\<rparr>))
        = Some 1"
    "removedKids
         (audit False
            \<lparr>DirectoryLog.directory = d1, time = t1,
             issuerInfo = [\<lparr>issuer = \<lparr>TrustedIssuer.iss = ''https://x/audit-2'', name = n1\<rparr>,
                            keys = ks1, errors = e1\<rparr>]\<rparr>
            (Some \<lparr>DirectoryLog.directory = d2, time = t2,
                   issuerInfo = [\<lparr>issuer = \<lparr>TrustedIssuer.iss = ''https://x/audit-1'', name = n2\<rparr>,
                                  keys = ks2, errors = e2\<rparr>]\<rparr>))
        = Some []"
    by (simp_all add: verbatim audit_newIssuerCount audit_deletedIssuerCount audit_removedKids
        compare_all_eq count_not_included_eq getIssuers_def getIssuerKids_def removed_entry_def)
  from first none verbatim[of url] k1 k2 keys test plain show ?thesis by (intro conjI)
qed

theorem getIssuerUrl_test_mode_witness:
  "is_digit CHR ''1'' \<and> \<not> contains_audit_digit ''https://x/''
   \<and> getIssuerUrl True ''https://x/audit-1/jwks'' = ''https://x/audit/jwks''
   \<and> \<not> contains_audit_digit ''https://x/audit''
   \<and> getIssuerUrl True ''https://x/audit'' = ''https://x/audit''"
  using getIssuerUrl_test_mode [of "CHR ''1''" "''https://x/''" "''/jwks''" "''https://x/audit''"]
  by (simp add: getIssuerUrl_def matches_audit_digit_def is_digit_def)

text \<open>
  C10. An identifier in which \<^verbatim>\<open>audit-\<close> and a digit occur at two or more positions splits
  into the text before the leftmost occurrence (which has no occurrence), that occurrence,
  and the rest. In test mode the comparison key is the text before, \<^verbatim>\<open>audit\<close>, and the
  rest as it is: the rest holds all the other occurrences, one fewer than the identifier.
\<close>

theorem getIssuerUrl_replaces_first_only:
  assumes "2 \<le> count_audit_digit url"
  shows "\<exists>pre d post. url = pre @ ''audit-'' @ d # post \<and> is_digit d
           \<and> \<not> contains_audit_digit pre
           \<and> getIssuerUrl True url = pre @ ''audit'' @ post
           \<and> Suc (count_audit_digit post) = count_audit_digit url"
proof -
  from assms have "count_audit_digit url \<noteq> 0" by simp
  then have "contains_audit_digit url" by (simp add: count_zero_iff)
  from first_match[OF this] obtain pre d post where
    s: "url = pre @ ''audit-'' @ d # post" "is_digit d" "\<not> contains_audit_digit pre"
    by blast
  from s(2,3) have "replace_audit_digit (pre @ ''audit-'' @ d # post) = pre @ ''audit'' @ post"
    by (rule replace_first_match)
  with s(1) have r: "getIssuerUrl True url = pre @ ''audit'' @ post"
    by (simp add: getIssuerUrl_def)
  from s(3) have "count_audit_digit pre = 0" by (simp add: count_zero_iff)
  with count_split[OF s(2), of pre post] s(1)
  have "Suc (count_audit_digit post) = count_audit_digit url" by simp
  with s r show ?thesis by blast
qed

theorem getIssuerUrl_replaces_first_only_witness:
  "2 \<le> count_audit_digit ''https://audit-1.example/audit-2''
   \<and> getIssuerUrl True ''https://audit-1.example/audit-2'' = ''https://audit.example/audit-2''
   \<and> count_audit_digit ''.example/audit-2'' = 1"
  using getIssuerUrl_replaces_first_only [of "''https://audit-1.example/audit-2''"]
  by (simp add: getIssuerUrl_def matches_audit_digit_def is_digit_def)

subsection \<open>Facts about the directory fetcher\<close>

lemma those_map_Some: "those (map Some xs) = Some xs"
  by (induction xs) simp_all

text \<open>
  When every promise fulfils and every index occurs in the order of settling,
  \<^verbatim>\<open>Promise.all\<close> delivers the values in the order of the promises.
\<close>

lemma await_all_fulfilled:
  assumes "length slots = length values"
    and "\<forall>j < length values. slots ! j = None \<or> slots ! j = Some (values ! j)"
    and "\<forall>j < length values. slots ! j = None \<longrightarrow> j \<in> set order"
  shows "await_all (map Inr values) slots order = Some (Inr values)"
  using assms
proof (induction order arbitrary: slots)
  case Nil
  have "slots = map Some values"
  proof (rule nth_equalityI)
    show "length slots = length (map Some values)" using Nil.prems(1) by simp
  next
    fix j
    assume "j < length slots"
    then have j: "j < length values" using Nil.prems(1) by simp
    from Nil.prems(3) j have "slots ! j \<noteq> None" by auto
    moreover from Nil.prems(2) j have "slots ! j = None \<or> slots ! j = Some (values ! j)" by blast
    ultimately have "slots ! j = Some (values ! j)" by auto
    with j show "slots ! j = map Some values ! j" by simp
  qed
  then show ?case by (simp add: those_map_Some)
next
  case (Cons i order)
  show ?case
  proof (cases "i < length values")
    case True
    let ?slots = "slots[i := Some (values ! i)]"
    have 1: "length ?slots = length values" using Cons.prems(1) by simp
    have upd: "?slots ! j = (if j = i then Some (values ! j) else slots ! j)"
      if "j < length values" for j
      using that Cons.prems(1) by (simp add: nth_list_update)
    have 2: "\<forall>j < length values. ?slots ! j = None \<or> ?slots ! j = Some (values ! j)"
    proof (intro allI impI)
      fix j
      assume j: "j < length values"
      with Cons.prems(2) have "slots ! j = None \<or> slots ! j = Some (values ! j)" by blast
      with upd[OF j] show "?slots ! j = None \<or> ?slots ! j = Some (values ! j)"
        by (cases "j = i") simp_all
    qed
    have 3: "\<forall>j < length values. ?slots ! j = None \<longrightarrow> j \<in> set order"
    proof (intro allI impI)
      fix j
      assume j: "j < length values" "?slots ! j = None"
      with upd[OF j(1)] have "j \<noteq> i" "slots ! j = None" by (auto split: if_splits)
      moreover from this(2) j(1) Cons.prems(3) have "j \<in> set (i # order)" by blast
      ultimately show "j \<in> set order" by simp
    qed
    from True Cons.IH[OF 1 2 3] show ?thesis by simp
  next
    case False
    have 3: "\<forall>j < length values. slots ! j = None \<longrightarrow> j \<in> set order"
    proof (intro allI impI)
      fix j
      assume j: "j < length values" "slots ! j = None"
      with Cons.prems(3) have "j \<in> set (i # order)" by blast
      moreover from j(1) False have "j \<noteq> i" by auto
      ultimately show "j \<in> set order" by simp
    qed
    from False Cons.IH[OF Cons.prems(1,2) 3] show ?thesis by simp
  qed
qed

lemma Promise_all_fulfilled:
  assumes "set [0..<length values] \<subseteq> set order"
  shows "Promise_all order (map Inr values) = Some (Inr values)"
proof -
  have "await_all (map Inr values) (replicate (length values) None) order = Some (Inr values)"
  proof (rule await_all_fulfilled)
    show "\<forall>j < length values. replicate (length values) None ! j = None \<longrightarrow> j \<in> set order"
      using assms by auto
  qed simp_all
  then show ?thesis by (simp add: Promise_all_def)
qed

text \<open>
  When a promise rejects and settles, \<^verbatim>\<open>Promise.all\<close> rejects, whatever the other
  promises do.
\<close>

lemma await_all_rejected:
  assumes "k < length outcomes" and "outcomes ! k = Inl reason" and "k \<in> set order"
  shows "\<exists>r. await_all outcomes slots order = Some (Inl r)"
  using assms(3)
proof (induction order arbitrary: slots)
  case Nil
  then show ?case by simp
next
  case (Cons i order)
  show ?case
  proof (cases "i < length outcomes")
    case True
    show ?thesis
    proof (cases "outcomes ! i")
      case (Inl r)
      with True show ?thesis by simp
    next
      case (Inr v)
      with assms(2) have "i \<noteq> k" by auto
      with Cons.prems have "k \<in> set order" by simp
      from Cons.IH[OF this] True Inr show ?thesis by simp
    qed
  next
    case False
    with assms(1) have "i \<noteq> k" by auto
    with Cons.prems have "k \<in> set order" by simp
    from Cons.IH[OF this] False show ?thesis by simp
  qed
qed

lemma Promise_all_rejected:
  assumes "k < length outcomes" and "outcomes ! k = Inl reason" and "k \<in> set order"
  shows "\<exists>r. Promise_all order outcomes = Some (Inl r)"
  unfolding Promise_all_def using assms by (rule await_all_rejected)

text \<open>The callback on an element for which line 107 gives a URL.\<close>

lemma fetchIssuerLogInfo_launched:
  "jwkURL trustedIssuer = Inr url \<Longrightarrow>
     fetchIssuerLogInfo got_i JSON_parse trustedIssuer =
       Inr (try_catch (got_i url) JSON_parse trustedIssuer)"
  by (simp add: fetchIssuerLogInfo_def)

lemma fetchIssuerLogInfo_thrown:
  "jwkURL trustedIssuer = Inl err \<Longrightarrow>
     fetchIssuerLogInfo got_i JSON_parse trustedIssuer = Inl err"
  by (simp add: fetchIssuerLogInfo_def)

lemma jwkURL_typed:
  "as_TrustedIssuer element = Some t \<Longrightarrow>
     jwkURL element = Inr (TrustedIssuer.iss t @ ''/.well-known/jwks.json'')"
  by (cases element) (auto simp: jwkURL_def split: option.splits jsval.splits)

lemma try_catch_caught:
  "try_keys result JSON_parse = Inl err \<Longrightarrow>
     try_catch result JSON_parse trustedIssuer =
       \<lparr>issuer = trustedIssuer, keys = JArr [], errors = Some [err]\<rparr>"
  by (simp add: try_catch_def)

lemma try_catch_assigned:
  "try_keys result JSON_parse = Inr ks \<Longrightarrow>
     try_catch result JSON_parse trustedIssuer =
       \<lparr>issuer = trustedIssuer, keys = ks, errors = Some []\<rparr>"
  by (simp add: try_catch_def)

lemma issuer_try_catch [simp]: "issuer (try_catch result JSON_parse trustedIssuer) = trustedIssuer"
  by (cases "try_keys result JSON_parse") (simp_all add: try_catch_caught try_catch_assigned)

text \<open>
  An entry has errors exactly when the \<^verbatim>\<open>try\<close> block has thrown, and then its \<^verbatim>\<open>keys\<close>
  are the empty array.
\<close>

lemma has_errors_try_catch:
  "has_errors (try_catch result JSON_parse trustedIssuer) \<longleftrightarrow>
     (\<exists>err. try_keys result JSON_parse = Inl err)"
  by (cases "try_keys result JSON_parse")
     (simp_all add: try_catch_caught try_catch_assigned has_errors_def)

lemma has_errors_keys_empty:
  "has_errors (try_catch result JSON_parse trustedIssuer) \<Longrightarrow>
     keys (try_catch result JSON_parse trustedIssuer) = JArr []"
  by (cases "try_keys result JSON_parse")
     (simp_all add: try_catch_caught try_catch_assigned has_errors_def)

text \<open>
  The snapshot of a directory in which line 107 throws on no element: one entry per
  element, in the order of the array, whatever the order in which the promises settle.
\<close>

lemma launched_outcomes:
  assumes "map jwkURL elements = map Inr urls"
  shows "map (\<lambda>(i, trustedIssuer). fetchIssuerLogInfo (got (Suc i)) JSON_parse trustedIssuer)
             (enumerate 0 elements)
         = map Inr (map (\<lambda>i. try_catch (got (Suc i) (urls ! i)) JSON_parse (elements ! i))
                        [0..<length elements])"
proof (rule nth_equalityI)
  show "length (map (\<lambda>(i, trustedIssuer). fetchIssuerLogInfo (got (Suc i)) JSON_parse trustedIssuer)
                    (enumerate 0 elements))
        = length (map Inr (map (\<lambda>i. try_catch (got (Suc i) (urls ! i)) JSON_parse (elements ! i))
                        [0..<length elements]))"
    by simp
next
  fix j
  assume "j < length (map (\<lambda>(i, trustedIssuer). fetchIssuerLogInfo (got (Suc i)) JSON_parse trustedIssuer)
                    (enumerate 0 elements))"
  then have j: "j < length elements" by simp
  from assms have "length (map jwkURL elements) = length (map Inr urls)" by simp
  then have len: "length urls = length elements" by simp
  from assms have "map jwkURL elements ! j = map Inr urls ! j" by simp
  with j len have "jwkURL (elements ! j) = Inr (urls ! j)" by simp
  then have "fetchIssuerLogInfo (got (Suc j)) JSON_parse (elements ! j)
               = Inr (try_catch (got (Suc j) (urls ! j)) JSON_parse (elements ! j))"
    by (rule fetchIssuerLogInfo_launched)
  with j show "map (\<lambda>(i, trustedIssuer). fetchIssuerLogInfo (got (Suc i)) JSON_parse trustedIssuer)
                   (enumerate 0 elements) ! j
        = map Inr (map (\<lambda>i. try_catch (got (Suc i) (urls ! i)) JSON_parse (elements ! i))
                        [0..<length elements]) ! j"
    by (simp add: nth_enumerate_eq)
qed

lemma fetchDirectory_Fulfilled:
  assumes "read_directory got JSON_parse directoryUrl = Fulfilled elements"
    and "map jwkURL elements = map Inr urls"
    and "set [0..<length elements] \<subseteq> set order"
  shows "fetchDirectory got JSON_parse order directoryUrl now =
           Fulfilled \<lparr>DirectoryLog.directory = directoryUrl, time = now,
                      issuerInfo = map (\<lambda>i. try_catch (got (Suc i) (urls ! i)) JSON_parse
                                               (elements ! i))
                                       [0..<length elements]\<rparr>"
proof -
  let ?infos = "map (\<lambda>i. try_catch (got (Suc i) (urls ! i)) JSON_parse (elements ! i))
                    [0..<length elements]"
  from assms(3) have "set [0..<length ?infos] \<subseteq> set order" by simp
  then have "Promise_all order (map Inr ?infos) = Some (Inr ?infos)"
    by (rule Promise_all_fulfilled)
  with assms(1) launched_outcomes[OF assms(2), of got JSON_parse] show ?thesis
    by (simp add: fetchDirectory_def)
qed

lemma fetchDirectory_order:
  assumes "read_directory got JSON_parse directoryUrl = Fulfilled elements"
    and "map jwkURL elements = map Inr urls"
    and "set [0..<length elements] \<subseteq> set order"
  shows "\<exists>log. fetchDirectory got JSON_parse order directoryUrl now = Fulfilled log
           \<and> length (issuerInfo log) = length elements
           \<and> map issuer (issuerInfo log) = elements
           \<and> (\<forall>order'. set [0..<length elements] \<subseteq> set order' \<longrightarrow>
                 fetchDirectory got JSON_parse order' directoryUrl now = Fulfilled log)"
proof -
  let ?log = "\<lparr>DirectoryLog.directory = directoryUrl, time = now,
               issuerInfo = map (\<lambda>i. try_catch (got (Suc i) (urls ! i)) JSON_parse (elements ! i))
                                [0..<length elements]\<rparr>"
  have any: "fetchDirectory got JSON_parse order' directoryUrl now = Fulfilled ?log"
    if "set [0..<length elements] \<subseteq> set order'" for order'
    using assms(1,2) that by (rule fetchDirectory_Fulfilled)
  have "map issuer (issuerInfo ?log) = map (\<lambda>i. elements ! i) [0..<length elements]"
    by (simp add: comp_def)
  then have "map issuer (issuerInfo ?log) = elements" by (simp add: map_nth)
  moreover have "length (issuerInfo ?log) = length elements" by simp
  ultimately show ?thesis using any[OF assms(3)] any by blast
qed

text \<open>
  The snapshot of a directory in which line 107 throws on some element: once that promise
  has settled, \<^verbatim>\<open>issuerInfo\<close> is empty.
\<close>

lemma fetchDirectory_dropped:
  assumes "read_directory got JSON_parse directoryUrl = Fulfilled elements"
    and "k < length elements"
    and "jwkURL (elements ! k) = Inl err"
    and "k \<in> set order"
  shows "fetchDirectory got JSON_parse order directoryUrl now =
           Fulfilled \<lparr>DirectoryLog.directory = directoryUrl, time = now, issuerInfo = []\<rparr>"
proof -
  let ?outcomes = "map (\<lambda>(i, trustedIssuer). fetchIssuerLogInfo (got (Suc i)) JSON_parse trustedIssuer)
                       (enumerate 0 elements)"
  have k: "k < length ?outcomes" using assms(2) by simp
  have "?outcomes ! k = fetchIssuerLogInfo (got (Suc k)) JSON_parse (elements ! k)"
    using assms(2) by (simp add: nth_enumerate_eq)
  with assms(3) have "?outcomes ! k = Inl err" by (simp add: fetchIssuerLogInfo_thrown)
  from Promise_all_rejected[OF k this assms(4)]
  obtain r where "Promise_all order ?outcomes = Some (Inl r)" by blast
  with assms(1) show ?thesis by (simp add: fetchDirectory_def)
qed

lemma typed_elements_launch:
  assumes "map as_TrustedIssuer elements = map Some issuers"
  shows "map jwkURL elements =
           map Inr (map (\<lambda>t. TrustedIssuer.iss t @ ''/.well-known/jwks.json'') issuers)"
proof (rule nth_equalityI)
  from assms have "length (map as_TrustedIssuer elements) = length (map Some issuers)" by simp
  then show len: "length (map jwkURL elements) =
      length (map Inr (map (\<lambda>t. TrustedIssuer.iss t @ ''/.well-known/jwks.json'') issuers))"
    by simp
  fix j
  assume "j < length (map jwkURL elements)"
  then have j: "j < length elements" by simp
  from assms have "map as_TrustedIssuer elements ! j = map Some issuers ! j" by simp
  with j len have "as_TrustedIssuer (elements ! j) = Some (issuers ! j)" by simp
  then have "jwkURL (elements ! j) = Inr (TrustedIssuer.iss (issuers ! j) @ ''/.well-known/jwks.json'')"
    by (rule jwkURL_typed)
  with j len show "map jwkURL elements ! j =
      map Inr (map (\<lambda>t. TrustedIssuer.iss t @ ''/.well-known/jwks.json'') issuers) ! j"
    by simp
qed

subsection \<open>The claims about the directory fetcher\<close>

text \<open>
  C2. Let the directory be fetched and hold the elements \<open>elements\<close>, let line 107 give
  a URL for each of them (as it does for every element of the declared type
  \<^verbatim>\<open>TrustedIssuer\<close>, see \<open>typed_elements_launch\<close>), let every per-issuer promise settle,
  and let the key fetch of the issuer at index \<open>k\<close> fail: \<^verbatim>\<open>got\<close> rejects (connection
  failure, timeout or non-success status) or the body does not parse. Then
  \<^verbatim>\<open>fetchDirectory\<close> still fulfils with one entry per issuer; the entry at \<open>k\<close> has
  \<^verbatim>\<open>keys = []\<close> and the error's text as its only error; and in every world that differs
  only in the outcome of that one request (so also where it succeeds), every other entry
  is the same.
\<close>

theorem fetchDirectory_isolates_failures:
  assumes "read_directory got JSON_parse directoryUrl = Fulfilled elements"
    and "map jwkURL elements = map Inr urls"
    and "set [0..<length elements] \<subseteq> set order"
    and "k < length elements"
    and "got (Suc k) (urls ! k) = Rejects err
         \<or> (\<exists>response. got (Suc k) (urls ! k) = Resolves (Some response)
                        \<and> JSON_parse (body response) = Inl err)"
  shows "\<exists>log. fetchDirectory got JSON_parse order directoryUrl now = Fulfilled log
           \<and> length (issuerInfo log) = length elements
           \<and> issuerInfo log ! k = \<lparr>issuer = elements ! k, keys = JArr [], errors = Some [err]\<rparr>
           \<and> (\<forall>got'. (\<forall>i url. i \<noteq> Suc k \<longrightarrow> got' i url = got i url) \<longrightarrow>
                (\<exists>log'. fetchDirectory got' JSON_parse order directoryUrl now = Fulfilled log'
                   \<and> length (issuerInfo log') = length elements
                   \<and> (\<forall>j < length elements. j \<noteq> k \<longrightarrow> issuerInfo log' ! j = issuerInfo log ! j)))"
proof -
  let ?infos = "\<lambda>g. map (\<lambda>i. try_catch (g (Suc i) (urls ! i)) JSON_parse (elements ! i))
                        [0..<length elements]"
  let ?log = "\<lambda>g. \<lparr>DirectoryLog.directory = directoryUrl, time = now, issuerInfo = ?infos g\<rparr>"
  have fulfilled: "fetchDirectory got JSON_parse order directoryUrl now = Fulfilled (?log got)"
    using assms(1,2,3) by (rule fetchDirectory_Fulfilled)
  have len: "length (issuerInfo (?log g)) = length elements" for g
    by simp
  from assms(5) have "try_keys (got (Suc k) (urls ! k)) JSON_parse = Inl err"
    by (auto simp: try_keys_def)
  then have "try_catch (got (Suc k) (urls ! k)) JSON_parse (elements ! k) =
               \<lparr>issuer = elements ! k, keys = JArr [], errors = Some [err]\<rparr>"
    by (rule try_catch_caught)
  with assms(4) have failed:
    "issuerInfo (?log got) ! k = \<lparr>issuer = elements ! k, keys = JArr [], errors = Some [err]\<rparr>"
    by simp
  have others: "\<exists>log'. fetchDirectory got' JSON_parse order directoryUrl now = Fulfilled log'
                   \<and> length (issuerInfo log') = length elements
                   \<and> (\<forall>j < length elements. j \<noteq> k \<longrightarrow> issuerInfo log' ! j = issuerInfo (?log got) ! j)"
    if same: "\<forall>i url. i \<noteq> Suc k \<longrightarrow> got' i url = got i url" for got'
  proof -
    from same have "got' 0 directoryUrl = got 0 directoryUrl" by simp
    then have "read_directory got' JSON_parse directoryUrl = read_directory got JSON_parse directoryUrl"
      by (simp add: read_directory_def)
    with assms(1) have "read_directory got' JSON_parse directoryUrl = Fulfilled elements" by simp
    then have f': "fetchDirectory got' JSON_parse order directoryUrl now = Fulfilled (?log got')"
      using assms(2,3) by (rule fetchDirectory_Fulfilled)
    have "issuerInfo (?log got') ! j = issuerInfo (?log got) ! j"
      if "j < length elements" "j \<noteq> k" for j
    proof -
      from that(2) same have "got' (Suc j) = got (Suc j)" by auto
      with that(1) show ?thesis by simp
    qed
    with f' len[of got'] show ?thesis by blast
  qed
  from fulfilled len[of got] failed others show ?thesis by blast
qed

theorem fetchDirectory_isolates_failures_witness:
  "read_directory
      (\<lambda>n url. if n = 0 then Resolves (Some \<lparr>body = ''directory''\<rparr>)
                else if n = 1 then Rejects ''RequestError: connect ECONNREFUSED''
                else Resolves (Some \<lparr>body = ''keys''\<rparr>))
      (\<lambda>text. if text = ''directory''
               then Inr (JObj [(''participating_issuers'',
                          JArr [JObj [(''iss'', JStr ''https://a''), (''name'', JStr ''A'')],
                                JObj [(''iss'', JStr ''https://b''), (''name'', JStr ''B'')]])])
               else if text = ''keys'' then Inr (JObj [(''keys'', JArr [JObj [(''kid'', JStr ''k1'')]])])
               else Inl ''SyntaxError'')
      ''https://directory''
    = Fulfilled [JObj [(''iss'', JStr ''https://a''), (''name'', JStr ''A'')],
                 JObj [(''iss'', JStr ''https://b''), (''name'', JStr ''B'')]]
   \<and> map jwkURL [JObj [(''iss'', JStr ''https://a''), (''name'', JStr ''A'')],
                   JObj [(''iss'', JStr ''https://b''), (''name'', JStr ''B'')]]
     = map Inr [''https://a/.well-known/jwks.json'', ''https://b/.well-known/jwks.json'']
   \<and> set [0..<2] \<subseteq> set [1, 0 :: nat]
   \<and> fetchDirectory
      (\<lambda>n url. if n = 0 then Resolves (Some \<lparr>body = ''directory''\<rparr>)
                else if n = 1 then Rejects ''RequestError: connect ECONNREFUSED''
                else Resolves (Some \<lparr>body = ''keys''\<rparr>))
      (\<lambda>text. if text = ''directory''
               then Inr (JObj [(''participating_issuers'',
                          JArr [JObj [(''iss'', JStr ''https://a''), (''name'', JStr ''A'')],
                                JObj [(''iss'', JStr ''https://b''), (''name'', JStr ''B'')]])])
               else if text = ''keys'' then Inr (JObj [(''keys'', JArr [JObj [(''kid'', JStr ''k1'')]])])
               else Inl ''SyntaxError'')
      [1, 0] ''https://directory'' ''2021-01-01 00:00:00''
    = Fulfilled
        \<lparr>DirectoryLog.directory = ''https://directory'', time = ''2021-01-01 00:00:00'',
         issuerInfo =
           [\<lparr>issuer = JObj [(''iss'', JStr ''https://a''), (''name'', JStr ''A'')],
             keys = JArr [], errors = Some [''RequestError: connect ECONNREFUSED'']\<rparr>,
            \<lparr>issuer = JObj [(''iss'', JStr ''https://b''), (''name'', JStr ''B'')],
             keys = JArr [JObj [(''kid'', JStr ''k1'')]], errors = Some []\<rparr>]\<rparr>"
proof -
  let ?got = "\<lambda>(n::nat) (url::string).
                if n = 0 then Resolves (Some \<lparr>body = ''directory''\<rparr>)
                else if n = 1 then Rejects ''RequestError: connect ECONNREFUSED''
                else Resolves (Some \<lparr>body = ''keys''\<rparr>)"
  let ?parse = "\<lambda>text. if text = ''directory''
               then Inr (JObj [(''participating_issuers'',
                          JArr [JObj [(''iss'', JStr ''https://a''), (''name'', JStr ''A'')],
                                JObj [(''iss'', JStr ''https://b''), (''name'', JStr ''B'')]])])
               else if text = ''keys'' then Inr (JObj [(''keys'', JArr [JObj [(''kid'', JStr ''k1'')]])])
               else Inl ''SyntaxError''"
  let ?elements = "[JObj [(''iss'', JStr ''https://a''), (''name'', JStr ''A'')],
                    JObj [(''iss'', JStr ''https://b''), (''name'', JStr ''B'')]]"
  let ?urls = "[''https://a/.well-known/jwks.json'', ''https://b/.well-known/jwks.json'']"
  have dir: "read_directory ?got ?parse ''https://directory'' = Fulfilled ?elements"
    by (simp add: read_directory_def)
  have launch: "map jwkURL ?elements = map Inr ?urls"
    by (simp add: jwkURL_def)
  have sched: "set [0..<length ?elements] \<subseteq> set [1, 0 :: nat]" by auto
  have k: "(0::nat) < length ?elements" by simp
  have fails: "?got (Suc 0) (?urls ! 0) = Rejects ''RequestError: connect ECONNREFUSED''
         \<or> (\<exists>response. ?got (Suc 0) (?urls ! 0) = Resolves (Some response)
                        \<and> ?parse (body response) = Inl ''RequestError: connect ECONNREFUSED'')"
    by simp
  from fetchDirectory_isolates_failures
         [of ?got ?parse "''https://directory''" ?elements ?urls "[1, 0]" 0
             "''RequestError: connect ECONNREFUSED''" "''2021-01-01 00:00:00''",
          OF dir launch sched k fails]
  obtain log where log:
    "fetchDirectory ?got ?parse [1, 0] ''https://directory'' ''2021-01-01 00:00:00'' = Fulfilled log"
    "length (issuerInfo log) = length ?elements"
    "issuerInfo log ! 0 = \<lparr>issuer = ?elements ! 0, keys = JArr [],
                            errors = Some [''RequestError: connect ECONNREFUSED'']\<rparr>"
    by blast
  have g: "set [0..<2] \<subseteq> set [1, 0 :: nat]" by auto
  have eval:
    "fetchDirectory ?got ?parse [1, 0] ''https://directory'' ''2021-01-01 00:00:00''
    = Fulfilled
        \<lparr>DirectoryLog.directory = ''https://directory'', time = ''2021-01-01 00:00:00'',
         issuerInfo =
           [\<lparr>issuer = JObj [(''iss'', JStr ''https://a''), (''name'', JStr ''A'')],
             keys = JArr [], errors = Some [''RequestError: connect ECONNREFUSED'']\<rparr>,
            \<lparr>issuer = JObj [(''iss'', JStr ''https://b''), (''name'', JStr ''B'')],
             keys = JArr [JObj [(''kid'', JStr ''k1'')]], errors = Some []\<rparr>]\<rparr>"
    by (simp add: fetchDirectory_def dir fetchIssuerLogInfo_def jwkURL_def try_catch_def
        try_keys_def Promise_all_def enumerate_eq_zip)
  with log have "issuerInfo log ! 0
      = \<lparr>issuer = JObj [(''iss'', JStr ''https://a''), (''name'', JStr ''A'')],
         keys = JArr [], errors = Some [''RequestError: connect ECONNREFUSED'']\<rparr>"
    by simp
  from dir launch g eval show ?thesis by (intro conjI)
qed

text \<open>
  C4. The specification asks that the snapshot hold one entry per issuer of the directory,
  in the directory's order, for every directory document with a \<^verbatim>\<open>participating_issuers\<close>
  sequence. For the sequence of the issuer \<^verbatim>\<open>B\<close> and \<^verbatim>\<open>null\<close> the script returns a snapshot
  without any entry, in either order of settling: line 107 reads \<^verbatim>\<open>issuer.iss\<close> before the
  \<^verbatim>\<open>try\<close> block, so the promise of the second callback rejects, \<^verbatim>\<open>Promise.all\<close> rejects,
  and the \<^verbatim>\<open>catch\<close> of lines 136 to 138 drops the rejection (\<^verbatim>\<open>Promise.reject(err)\<close> is
  neither returned nor thrown) and with it the entry of \<^verbatim>\<open>B\<close>. Where line 107 throws on
  no element the snapshot is as specified (\<open>fetchDirectory_order\<close>).
\<close>

theorem fetchDirectory_drops_entries:
  "read_directory
      (\<lambda>n url. if n = 0 then Resolves (Some \<lparr>body = ''directory''\<rparr>)
                else Resolves (Some \<lparr>body = ''keys''\<rparr>))
      (\<lambda>text. if text = ''directory''
               then Inr (JObj [(''participating_issuers'',
                          JArr [JObj [(''iss'', JStr ''https://b''), (''name'', JStr ''B'')],
                                JNull])])
               else Inr (JObj [(''keys'', JArr [])]))
      ''https://directory''
    = Fulfilled [JObj [(''iss'', JStr ''https://b''), (''name'', JStr ''B'')], JNull]
   \<and> fetchDirectory
      (\<lambda>n url. if n = 0 then Resolves (Some \<lparr>body = ''directory''\<rparr>)
                else Resolves (Some \<lparr>body = ''keys''\<rparr>))
      (\<lambda>text. if text = ''directory''
               then Inr (JObj [(''participating_issuers'',
                          JArr [JObj [(''iss'', JStr ''https://b''), (''name'', JStr ''B'')],
                                JNull])])
               else Inr (JObj [(''keys'', JArr [])]))
      [1, 0] ''https://directory'' ''2021-01-01 00:00:00''
    = Fulfilled \<lparr>DirectoryLog.directory = ''https://directory'',
                 time = ''2021-01-01 00:00:00'', issuerInfo = []\<rparr>
   \<and> fetchDirectory
      (\<lambda>n url. if n = 0 then Resolves (Some \<lparr>body = ''directory''\<rparr>)
                else Resolves (Some \<lparr>body = ''keys''\<rparr>))
      (\<lambda>text. if text = ''directory''
               then Inr (JObj [(''participating_issuers'',
                          JArr [JObj [(''iss'', JStr ''https://b''), (''name'', JStr ''B'')],
                                JNull])])
               else Inr (JObj [(''keys'', JArr [])]))
      [0, 1] ''https://directory'' ''2021-01-01 00:00:00''
    = Fulfilled \<lparr>DirectoryLog.directory = ''https://directory'',
                 time = ''2021-01-01 00:00:00'', issuerInfo = []\<rparr>"
  by (simp add: fetchDirectory_def read_directory_def fetchIssuerLogInfo_def jwkURL_def
      try_catch_def try_keys_def Promise_all_def enumerate_eq_zip)

text \<open>
  C5. The specification asks that a response that is well-formed JSON without a
  \<^verbatim>\<open>keys\<close> field be recorded as a failure, with \<^verbatim>\<open>keys = []\<close> and an error. For the body
  \<^verbatim>\<open>{}\<close> the script records no error and stores \<^verbatim>\<open>undefined\<close> as \<^verbatim>\<open>keys\<close>: the parsed
  object is truthy, so \<^verbatim>\<open>!keySet\<close> does not throw, and \<^verbatim>\<open>keySet.keys\<close> is read without a
  check. (An entry has errors exactly when the \<^verbatim>\<open>try\<close> block throws, and then its
  \<^verbatim>\<open>keys\<close> are empty: \<open>has_errors_try_catch\<close>, \<open>has_errors_keys_empty\<close>.)
\<close>

theorem fetchIssuerLogInfo_missing_keys:
  "fetchIssuerLogInfo (\<lambda>url. Resolves (Some \<lparr>body = ''{}''\<rparr>))
      (\<lambda>text. if text = ''{}'' then Inr (JObj []) else Inl ''SyntaxError'')
      (JObj [(''iss'', JStr ''https://issuer.example''), (''name'', JStr ''Issuer'')])
    = Inr \<lparr>issuer = JObj [(''iss'', JStr ''https://issuer.example''), (''name'', JStr ''Issuer'')],
           keys = JUndefined, errors = Some []\<rparr>"
  by (simp add: fetchIssuerLogInfo_def jwkURL_def try_catch_def try_keys_def)

end
